theory Spec2Isabelle
  imports Complex_Main "HOL-Library.Monad_Syntax"
begin

section \<open>The page and its geometry\<close>

text \<open>
  The two scripts (\<^verbatim>\<open>src/unnamed/part_000\<close>, the variant with the initial-state resolver,
  called legacy below, and \<^verbatim>\<open>src/src/scripts/headerTheme.js\<close>) read the document through
  \<^verbatim>\<open>querySelector\<close>, \<^verbatim>\<open>getElementById\<close>, \<^verbatim>\<open>getBoundingClientRect\<close> and \<^verbatim>\<open>window.scrollY\<close>,
  and write the \<^verbatim>\<open>data-theme\<close> attribute. \<open>childCount n sel\<close> is the length of
  \<^verbatim>\<open>n.querySelectorAll(sel)\<close>. DOM nodes are addresses; a lookup that finds
  nothing returns \<open>None\<close> (JavaScript \<^verbatim>\<open>null\<close>). Pixel offsets are JavaScript numbers.

  A computation that can raise (a \<^verbatim>\<open>TypeError\<close> from a member call on \<^verbatim>\<open>null\<close> or
  \<^verbatim>\<open>undefined\<close>, a \<^verbatim>\<open>SyntaxError\<close> from a string that is not a selector) returns an
  \<open>option\<close>: \<open>None\<close> is the uncaught exception.
\<close>

type_synonym node = nat

record page =
  querySelector :: "string \<Rightarrow> node option"
  getElementById :: "string \<Rightarrow> node option"
  rect_top :: "node \<Rightarrow> real"
  scrollY :: real
  readyState :: string
  childCount :: "node \<Rightarrow> string \<Rightarrow> nat"

subsection \<open>JavaScript numbers\<close>

text \<open>
  \<^verbatim>\<open>rect.top\<close> and \<^verbatim>\<open>window.scrollY\<close> are finite doubles, taken here as the reals they
  denote. The results of \<^verbatim>\<open>+\<close> and \<^verbatim>\<open>-\<close> are the exact results rounded to the nearest
  double (binary64: 53 significant bits, ties to even, least exponent \<open>-1022\<close>, overflow
  to an infinity). \<open>exponent x\<close> is the \<open>e\<close> with \<open>2^e \<le> |x| < 2^(e+1)\<close>, found by halving
  or doubling.
\<close>

datatype number = NegInfinity | Finite real | Infinity

definition pow2 :: "int \<Rightarrow> real" where
  "pow2 k = (if 0 \<le> k then 2 ^ nat k else 1 / 2 ^ nat (- k))"

function binade_up :: "real \<Rightarrow> int \<Rightarrow> int" where
  "binade_up x e = (if 2 \<le> x then binade_up (x / 2) (e + 1) else e)"
  by pat_completeness auto
termination
proof (relation "measure (\<lambda>(x, e). nat \<lceil>x\<rceil>)")
  show "wf (measure (\<lambda>(x::real, e::int). nat \<lceil>x\<rceil>))" by simp
next
  fix x :: real and e :: int
  assume a: "2 \<le> x"
  have half: "\<lceil>y / 2\<rceil> < \<lceil>y\<rceil>" if "1 < y" for y :: real
  proof (cases "y \<le> 2")
    case True
    then have "y / 2 \<le> 1" by simp
    then have "\<lceil>y / 2\<rceil> \<le> 1" by (simp add: ceiling_le_iff)
    moreover have "1 < \<lceil>y\<rceil>" using that by (simp add: less_ceiling_iff)
    ultimately show ?thesis by linarith
  next
    case False
    then have "y / 2 \<le> y - 1" by simp
    then have "\<lceil>y / 2\<rceil> \<le> \<lceil>y - 1\<rceil>" by (rule ceiling_mono)
    then show ?thesis by simp
  qed
  have "\<lceil>x / 2\<rceil> < \<lceil>x\<rceil>" using a by (intro half) simp
  moreover have "0 < \<lceil>x\<rceil>" using a by (simp add: less_ceiling_iff)
  ultimately show "((x / 2, e + 1), (x, e)) \<in> measure (\<lambda>(x, e). nat \<lceil>x\<rceil>)"
    by simp
qed

function binade_down :: "real \<Rightarrow> int \<Rightarrow> int" where
  "binade_down x e = (if 0 < x \<and> x < 1 then binade_down (2 * x) (e - 1) else e)"
  by pat_completeness auto
termination
proof (relation "measure (\<lambda>(x, e). nat \<lceil>1 / x\<rceil>)")
  show "wf (measure (\<lambda>(x::real, e::int). nat \<lceil>1 / x\<rceil>))" by simp
next
  fix x :: real and e :: int
  assume a: "0 < x \<and> x < 1"
  have half: "\<lceil>y / 2\<rceil> < \<lceil>y\<rceil>" if "1 < y" for y :: real
  proof (cases "y \<le> 2")
    case True
    then have "y / 2 \<le> 1" by simp
    then have "\<lceil>y / 2\<rceil> \<le> 1" by (simp add: ceiling_le_iff)
    moreover have "1 < \<lceil>y\<rceil>" using that by (simp add: less_ceiling_iff)
    ultimately show ?thesis by linarith
  next
    case False
    then have "y / 2 \<le> y - 1" by simp
    then have "\<lceil>y / 2\<rceil> \<le> \<lceil>y - 1\<rceil>" by (rule ceiling_mono)
    then show ?thesis by simp
  qed
  have b: "1 < 1 / x" using a by simp
  have d: "0 < \<lceil>1 / x\<rceil>" using a by (simp add: less_ceiling_iff)
  have "1 / (2 * x) = (1 / x) / 2" by simp
  then have "\<lceil>1 / (2 * x)\<rceil> < \<lceil>1 / x\<rceil>"
    using half[OF b] by presburger
  then have "nat \<lceil>1 / (2 * x)\<rceil> < nat \<lceil>1 / x\<rceil>" using d by linarith
  then show "((2 * x, e - 1), (x, e)) \<in> measure (\<lambda>(x, e). nat \<lceil>1 / x\<rceil>)"
    unfolding in_measure by (simp only: prod.case)
qed

declare binade_up.simps [simp del] binade_down.simps [simp del]

definition exponent :: "real \<Rightarrow> int" where
  "exponent x = (if 1 \<le> \<bar>x\<bar> then binade_up \<bar>x\<bar> 0 else binade_down \<bar>x\<bar> 0)"

definition ties_to_even :: "real \<Rightarrow> int" where
  "ties_to_even x =
     (let f = \<lfloor>x\<rfloor>; d = x - of_int f
      in if d < 1 / 2 then f else if 1 / 2 < d then f + 1 else if even f then f else f + 1)"

definition to_double :: "real \<Rightarrow> number" where
  "to_double x =
     (if x = 0 then Finite 0
      else let e = max (exponent x) (- 1022);
               q = pow2 (e - 52);
               r = of_int (ties_to_even (x / q)) * q
           in if pow2 1024 \<le> r then Infinity
              else if r \<le> - pow2 1024 then NegInfinity
              else Finite r)"


text \<open>\<^verbatim>\<open>a + b\<close> on finite doubles, \<^verbatim>\<open>a - c\<close> with a finite \<^verbatim>\<open>c\<close>, and \<^verbatim>\<open>a < b\<close>.\<close>

definition plus_number :: "real \<Rightarrow> real \<Rightarrow> number" where
  "plus_number a b = to_double (a + b)"

fun minus_number :: "number \<Rightarrow> real \<Rightarrow> number" where
  "minus_number (Finite a) c = to_double (a - c)"
| "minus_number Infinity c = Infinity"
| "minus_number NegInfinity c = NegInfinity"

fun less_number :: "number \<Rightarrow> number \<Rightarrow> bool" where
  "less_number (Finite a) (Finite b) = (a < b)"
| "less_number (Finite a) Infinity = True"
| "less_number NegInfinity (Finite b) = True"
| "less_number NegInfinity Infinity = True"
| "less_number a b = False"

text \<open>\<^verbatim>\<open>section.getBoundingClientRect().top\<close>: a member call, a \<^verbatim>\<open>TypeError\<close> on \<^verbatim>\<open>null\<close>.\<close>

definition getBoundingClientRect_top :: "page \<Rightarrow> node option \<Rightarrow> real option" where
  "getBoundingClientRect_top p section =
     (case section of None \<Rightarrow> None | Some n \<Rightarrow> Some (rect_top p n))"

section \<open>The initial-state resolver (legacy script)\<close>

definition contentSections :: "string list" where
  "contentSections =
     [''.cabinet-preview'', ''.section-contact'', ''.section-presentation'',
      ''.section-domaines'', ''.section-articles'', ''.section-content'',
      ''.section-philosophy'']"

text \<open>The body of \<^verbatim>\<open>contentSections.forEach\<close>, threading \<^verbatim>\<open>firstContentTop\<close>.\<close>

fun firstContentTop_forEach :: "page \<Rightarrow> string list \<Rightarrow> number \<Rightarrow> number option" where
  "firstContentTop_forEach p [] firstContentTop = Some firstContentTop"
| "firstContentTop_forEach p (selector # rest) firstContentTop =
     (let section = querySelector p selector in
      if section \<noteq> None then
        do {
          top \<leftarrow> getBoundingClientRect_top p section;
          let absoluteTop = plus_number top (scrollY p);
          firstContentTop_forEach p rest
            (if less_number absoluteTop firstContentTop
             then absoluteTop else firstContentTop)
        }
      else firstContentTop_forEach p rest firstContentTop)"

definition calculateInitialTheme :: "page \<Rightarrow> string option" where
  "calculateInitialTheme p =
     (let hasHero = (querySelector p ''.hero'' \<noteq> None \<or> querySelector p ''.page-hero'' \<noteq> None);
          scrollPosition = scrollY p
      in do {
        firstContentTop \<leftarrow> firstContentTop_forEach p contentSections Infinity;
        if hasHero \<and> less_number (Finite scrollPosition) (minus_number firstContentTop 100)
        then Some ''dark''
        else Some ''light''
      })"

text \<open>
  The absolute top offsets of the candidate sections that are present, as the script
  computes them, in the order of the candidate list: the quantity the specification takes
  the minimum of. \<open>exactTops\<close> are the same offsets in exact arithmetic.
\<close>

definition candidateTops :: "page \<Rightarrow> number list" where
  "candidateTops p =
     List.map_filter
       (\<lambda>selector. map_option (\<lambda>n. plus_number (rect_top p n) (scrollY p))
          (querySelector p selector))
       contentSections"

definition exactTops :: "page \<Rightarrow> real list" where
  "exactTops p =
     List.map_filter
       (\<lambda>selector. map_option (\<lambda>n. rect_top p n + scrollY p) (querySelector p selector))
       contentSections"

definition hasHeroSection :: "page \<Rightarrow> bool" where
  "hasHeroSection p = (querySelector p ''.hero'' \<noteq> None \<or> querySelector p ''.page-hero'' \<noteq> None)"

section \<open>Scroll triggers, callbacks and the browser's queues\<close>

text \<open>
  Every callback the scripts hand to the scroll-trigger library is the arrow function
  \<^verbatim>\<open>() => setTheme(theme)\<close>; it closes over the constants \<^verbatim>\<open>header\<close> and \<^verbatim>\<open>megaMenu\<close>
  of the call of \<^verbatim>\<open>initHeaderThemeLogic\<close> that made it. A closure is the data it captured.
\<close>

datatype callback = SetTheme "node option" "node option" string

text \<open>
  The configuration object of a trigger (\<^verbatim>\<open>trigger.vars\<close>); an absent property is
  \<open>None\<close> (\<^verbatim>\<open>undefined\<close>). The library documents \<^verbatim>\<open>id\<close> as a string.
\<close>

record vars =
  trigger_id :: "string option"
  trigger :: string
  start :: "string option"
  trigger_end :: "string option"
  refreshPriority :: "int option"
  scrub :: "bool option"
  toggleActions :: "string option"
  onEnter :: "callback option"
  onLeaveBack :: "callback option"
  onLeave :: "callback option"
  onEnterBack :: "callback option"

datatype event = Enter | LeaveBack | Leave | EnterBack

datatype script = Legacy | Current

text \<open>The functions handed to \<^verbatim>\<open>setTimeout\<close>, \<^verbatim>\<open>addEventListener\<close> and \<^verbatim>\<open>requestAnimationFrame\<close>.\<close>

datatype task =
    InitThemeTriggers script "node option" "node option"
  | LoadHandler script "node option" "node option"
  | Rebaseline "node option" "node option"

datatype call =
    RegisterPlugin
  | Kill "string option"
  | Refresh
  | SetAttribute node string
  | Create "string option"
  | RequestAnimationFrame
  | SetTimeout nat
  | AddEventListener string

text \<open>
  The state the scripts act on. \<open>triggers\<close> is what \<^verbatim>\<open>ScrollTrigger.getAll()\<close> returns.
  \<open>fires_on_create\<close> is the library's decision, from the page geometry and a trigger's
  configuration, which of the trigger's callbacks it invokes synchronously while
  \<^verbatim>\<open>ScrollTrigger.create\<close> runs; the scripts know nothing about it, and nothing below
  restricts it. \<open>trace\<close> records the calls to the DOM, the library and the browser in the
  order they are made.
\<close>

record world =
  the_page :: page
  data_theme :: "node \<Rightarrow> string option"
  triggers :: "vars list"
  fires_on_create :: "page \<Rightarrow> vars \<Rightarrow> event list"
  frames :: "task list"
  timeouts :: "(task \<times> nat) list"
  listeners :: "(string \<times> task) list"
  trace :: "call list"

subsection \<open>DOM and browser primitives\<close>

text \<open>\<^verbatim>\<open>el.setAttribute("data-theme", value)\<close>: a \<^verbatim>\<open>TypeError\<close> when \<^verbatim>\<open>el\<close> is \<^verbatim>\<open>null\<close>.\<close>

definition setAttribute :: "node option \<Rightarrow> string \<Rightarrow> world \<Rightarrow> world option" where
  "setAttribute el v w =
     (case el of
        None \<Rightarrow> None
      | Some n \<Rightarrow> Some (w\<lparr>data_theme := (data_theme w)(n := Some v),
                          trace := trace w @ [SetAttribute n v]\<rparr>))"

definition requestAnimationFrame :: "task \<Rightarrow> world \<Rightarrow> world" where
  "requestAnimationFrame f w = w\<lparr>frames := frames w @ [f], trace := trace w @ [RequestAnimationFrame]\<rparr>"

definition setTimeout :: "task \<Rightarrow> nat \<Rightarrow> world \<Rightarrow> world" where
  "setTimeout f ms w = w\<lparr>timeouts := timeouts w @ [(f, ms)], trace := trace w @ [SetTimeout ms]\<rparr>"

definition addEventListener :: "string \<Rightarrow> task \<Rightarrow> world \<Rightarrow> world" where
  "addEventListener ev f w =
     w\<lparr>listeners := listeners w @ [(ev, f)], trace := trace w @ [AddEventListener ev]\<rparr>"

definition registerPlugin :: "world \<Rightarrow> world" where
  "registerPlugin w = w\<lparr>trace := trace w @ [RegisterPlugin]\<rparr>"

subsection \<open>The helper \<^verbatim>\<open>setTheme\<close> and the callbacks\<close>

definition setTheme :: "node option \<Rightarrow> node option \<Rightarrow> string \<Rightarrow> world \<Rightarrow> world option" where
  "setTheme header megaMenu theme w =
     do {
       w1 \<leftarrow> setAttribute header theme w;
       if megaMenu \<noteq> None then setAttribute megaMenu theme w1 else Some w1
     }"

fun callback_of :: "event \<Rightarrow> vars \<Rightarrow> callback option" where
  "callback_of Enter v = onEnter v"
| "callback_of LeaveBack v = onLeaveBack v"
| "callback_of Leave v = onLeave v"
| "callback_of EnterBack v = onEnterBack v"

text \<open>The library invoking a callback slot; an empty slot does nothing.\<close>

fun call_callback :: "callback option \<Rightarrow> world \<Rightarrow> world option" where
  "call_callback None w = Some w"
| "call_callback (Some (SetTheme header megaMenu theme)) w = setTheme header megaMenu theme w"

fun fire_events :: "event list \<Rightarrow> vars \<Rightarrow> world \<Rightarrow> world option" where
  "fire_events [] v w = Some w"
| "fire_events (e # es) v w = do { w1 \<leftarrow> call_callback (callback_of e v) w; fire_events es v w1 }"

subsection \<open>The scroll-trigger library as the scripts use it\<close>

text \<open>
  \<^verbatim>\<open>ScrollTrigger.create(vars)\<close> registers the trigger and then invokes whichever of its
  callbacks the library decides to fire at once. \<^verbatim>\<open>trigger.kill()\<close> takes the trigger
  out of the registry. \<^verbatim>\<open>ScrollTrigger.refresh()\<close> recomputes the library's own
  geometry and leaves the document alone.
\<close>

definition ScrollTrigger_create :: "vars \<Rightarrow> world \<Rightarrow> world option" where
  "ScrollTrigger_create v w =
     fire_events (fires_on_create w (the_page w) v) v
       (w\<lparr>triggers := triggers w @ [v], trace := trace w @ [Create (trigger_id v)]\<rparr>)"

definition kill :: "vars \<Rightarrow> world \<Rightarrow> world" where
  "kill t w = w\<lparr>triggers := remove1 t (triggers w), trace := trace w @ [Kill (trigger_id t)]\<rparr>"

definition ScrollTrigger_refresh :: "world \<Rightarrow> world" where
  "ScrollTrigger_refresh w = w\<lparr>trace := trace w @ [Refresh]\<rparr>"

definition startsWith :: "string \<Rightarrow> string \<Rightarrow> bool" where
  "startsWith s p = (take (length p) s = p)"

text \<open>
  \<^verbatim>\<open>x?.startsWith(p)\<close>: \<^verbatim>\<open>undefined\<close> (here \<open>None\<close>) when \<^verbatim>\<open>x\<close> is \<^verbatim>\<open>undefined\<close>, no
  exception; \<^verbatim>\<open>if\<close> then tests the value for truthiness.
\<close>

definition optional_startsWith :: "string option \<Rightarrow> string \<Rightarrow> bool option" where
  "optional_startsWith x p = (case x of None \<Rightarrow> None | Some s \<Rightarrow> Some (startsWith s p))"

definition truthy :: "bool option \<Rightarrow> bool" where
  "truthy b = (b = Some True)"

text \<open>The teardown loop, over the snapshot \<^verbatim>\<open>ScrollTrigger.getAll()\<close>.\<close>

fun kill_forEach :: "vars list \<Rightarrow> world \<Rightarrow> world" where
  "kill_forEach [] w = w"
| "kill_forEach (t # rest) w =
     (if truthy (optional_startsWith (trigger_id t) ''theme-'')
      then kill_forEach rest (kill t w)
      else kill_forEach rest w)"

definition kill_theme_triggers :: "world \<Rightarrow> world" where
  "kill_theme_triggers w = kill_forEach (triggers w) w"

section \<open>The trigger bindings of the two scripts\<close>

text \<open>
  The object literals passed to \<^verbatim>\<open>ScrollTrigger.create\<close>. The first five and the
  sub-page light binding are written identically in both scripts.
\<close>

definition theme_cabinet :: "node option \<Rightarrow> node option \<Rightarrow> vars" where
  "theme_cabinet header megaMenu =
     \<lparr>trigger_id = Some ''theme-cabinet'', trigger = ''.cabinet-preview'',
      start = Some ''top 100px'', trigger_end = None, refreshPriority = Some (- 1),
      scrub = None, toggleActions = None,
      onEnter = Some (SetTheme header megaMenu ''light''),
      onLeaveBack = Some (SetTheme header megaMenu ''dark''),
      onLeave = None, onEnterBack = None\<rparr>"

definition theme_audience :: "node option \<Rightarrow> node option \<Rightarrow> vars" where
  "theme_audience header megaMenu =
     \<lparr>trigger_id = Some ''theme-audience'', trigger = ''.target-audience'',
      start = Some ''top 100px'', trigger_end = None, refreshPriority = Some (- 1),
      scrub = None, toggleActions = None,
      onEnter = Some (SetTheme header megaMenu ''dark''),
      onLeaveBack = Some (SetTheme header megaMenu ''light''),
      onLeave = None, onEnterBack = None\<rparr>"

definition theme_cta :: "node option \<Rightarrow> node option \<Rightarrow> vars" where
  "theme_cta header megaMenu =
     \<lparr>trigger_id = Some ''theme-cta'', trigger = ''.final-cta'',
      start = Some ''top 100px'', trigger_end = Some ''bottom 100px'',
      refreshPriority = Some (- 1), scrub = None, toggleActions = None,
      onEnter = Some (SetTheme header megaMenu ''light''),
      onLeaveBack = Some (SetTheme header megaMenu ''dark''),
      onLeave = Some (SetTheme header megaMenu ''dark''),
      onEnterBack = Some (SetTheme header megaMenu ''light'')\<rparr>"

definition theme_contact_section :: "node option \<Rightarrow> node option \<Rightarrow> vars" where
  "theme_contact_section header megaMenu =
     \<lparr>trigger_id = Some ''theme-contact-section'', trigger = ''.section-contact'',
      start = Some ''top 100px'', trigger_end = None, refreshPriority = Some (- 1),
      scrub = None, toggleActions = None,
      onEnter = Some (SetTheme header megaMenu ''light''),
      onLeaveBack = Some (SetTheme header megaMenu ''dark''),
      onLeave = None, onEnterBack = None\<rparr>"

definition theme_faq_section :: "node option \<Rightarrow> node option \<Rightarrow> vars" where
  "theme_faq_section header megaMenu =
     \<lparr>trigger_id = Some ''theme-faq-section'', trigger = ''.section-faq'',
      start = Some ''top 100px'', trigger_end = Some ''bottom 100px'',
      refreshPriority = Some (- 1), scrub = None, toggleActions = None,
      onEnter = Some (SetTheme header megaMenu ''light''),
      onLeaveBack = None,
      onLeave = Some (SetTheme header megaMenu ''dark''),
      onEnterBack = Some (SetTheme header megaMenu ''light'')\<rparr>"

definition subPageLightSections :: "string list" where
  "subPageLightSections =
     [''.section-presentation'', ''.section-domaines'', ''.section-articles'',
      ''.section-content'', ''.section-philosophy'']"

text \<open>The decimal text a template literal puts in place of a non-negative integer.\<close>

fun string_of_index :: "nat \<Rightarrow> string" where
  "string_of_index n =
     (if n < 10 then [''0123456789'' ! n]
      else string_of_index (n div 10) @ [''0123456789'' ! (n mod 10)])"

declare string_of_index.simps [simp del]

definition theme_subpage_light :: "node option \<Rightarrow> node option \<Rightarrow> string \<Rightarrow> nat \<Rightarrow> vars" where
  "theme_subpage_light header megaMenu selector index =
     \<lparr>trigger_id = Some (''theme-subpage-light-'' @ string_of_index index), trigger = selector,
      start = Some ''top 100px'', trigger_end = None, refreshPriority = Some (- 1),
      scrub = None, toggleActions = None,
      onEnter = Some (SetTheme header megaMenu ''light''),
      onLeaveBack = Some (SetTheme header megaMenu ''dark''),
      onLeave = None, onEnterBack = None\<rparr>"

text \<open>Legacy script only.\<close>

definition theme_subpage_cta :: "node option \<Rightarrow> node option \<Rightarrow> vars" where
  "theme_subpage_cta header megaMenu =
     \<lparr>trigger_id = Some ''theme-subpage-cta'', trigger = ''.final-cta'',
      start = Some ''top 100px'', trigger_end = Some ''bottom 100px'',
      refreshPriority = Some (- 1), scrub = None, toggleActions = None,
      onEnter = Some (SetTheme header megaMenu ''light''),
      onLeaveBack = Some (SetTheme header megaMenu ''light''),
      onLeave = Some (SetTheme header megaMenu ''dark''),
      onEnterBack = Some (SetTheme header megaMenu ''light'')\<rparr>"

text \<open>\<^verbatim>\<open>headerTheme.js\<close> only.\<close>

definition theme_subpage_footer :: "node option \<Rightarrow> node option \<Rightarrow> vars" where
  "theme_subpage_footer header megaMenu =
     \<lparr>trigger_id = Some ''theme-subpage-footer'', trigger = ''.footer-wrapper'',
      start = Some ''top 100px'', trigger_end = None, refreshPriority = Some (- 1),
      scrub = None, toggleActions = None,
      onEnter = Some (SetTheme header megaMenu ''dark''),
      onLeaveBack = Some (SetTheme header megaMenu ''light''),
      onLeave = None, onEnterBack = None\<rparr>"

section \<open>Trigger installation\<close>

text \<open>\<^verbatim>\<open>subPageLightSections.forEach((selector, index) => ...)\<close>, the same in both scripts.\<close>

fun subPageLight_forEach ::
  "node option \<Rightarrow> node option \<Rightarrow> string list \<Rightarrow> nat \<Rightarrow> world \<Rightarrow> world option" where
  "subPageLight_forEach header megaMenu [] index w = Some w"
| "subPageLight_forEach header megaMenu (selector # rest) index w =
     (let section = querySelector (the_page w) selector in
      if section \<noteq> None then
        do {
          w1 \<leftarrow> ScrollTrigger_create (theme_subpage_light header megaMenu selector index) w;
          subPageLight_forEach header megaMenu rest (Suc index) w1
        }
      else subPageLight_forEach header megaMenu rest (Suc index) w)"

text \<open>\<^verbatim>\<open>initThemeTriggers\<close> of \<^verbatim>\<open>src/unnamed/part_000\<close>.\<close>

definition initThemeTriggers_legacy :: "node option \<Rightarrow> node option \<Rightarrow> world \<Rightarrow> world option" where
  "initThemeTriggers_legacy header megaMenu w0 =
     do {
       let w = kill_theme_triggers w0;
       let w = ScrollTrigger_refresh w;
       initialTheme \<leftarrow> calculateInitialTheme (the_page w);
       w \<leftarrow> setTheme header megaMenu initialTheme w;
       w \<leftarrow> ScrollTrigger_create (theme_cabinet header megaMenu) w;
       w \<leftarrow> ScrollTrigger_create (theme_audience header megaMenu) w;
       w \<leftarrow> ScrollTrigger_create (theme_cta header megaMenu) w;
       w \<leftarrow> ScrollTrigger_create (theme_contact_section header megaMenu) w;
       w \<leftarrow> ScrollTrigger_create (theme_faq_section header megaMenu) w;
       w \<leftarrow> subPageLight_forEach header megaMenu subPageLightSections 0 w;
       let footerWrapper = querySelector (the_page w) ''.footer-wrapper'';
       w \<leftarrow> (if footerWrapper \<noteq> None then
              (let finalCTA = querySelector (the_page w) ''.final-cta'' in
               if finalCTA \<noteq> None
               then ScrollTrigger_create (theme_subpage_cta header megaMenu) w
               else Some w)
            else Some w);
       Some (requestAnimationFrame (Rebaseline header megaMenu) w)
     }"

text \<open>\<^verbatim>\<open>initThemeTriggers\<close> of \<^verbatim>\<open>src/src/scripts/headerTheme.js\<close>.\<close>

definition initThemeTriggers :: "node option \<Rightarrow> node option \<Rightarrow> world \<Rightarrow> world option" where
  "initThemeTriggers header megaMenu w0 =
     do {
       let w = kill_theme_triggers w0;
       let w = ScrollTrigger_refresh w;
       w \<leftarrow> ScrollTrigger_create (theme_cabinet header megaMenu) w;
       w \<leftarrow> ScrollTrigger_create (theme_audience header megaMenu) w;
       w \<leftarrow> ScrollTrigger_create (theme_cta header megaMenu) w;
       w \<leftarrow> ScrollTrigger_create (theme_contact_section header megaMenu) w;
       w \<leftarrow> ScrollTrigger_create (theme_faq_section header megaMenu) w;
       w \<leftarrow> subPageLight_forEach header megaMenu subPageLightSections 0 w;
       let footerWrapper = querySelector (the_page w) ''.footer-wrapper'';
       if footerWrapper \<noteq> None
       then ScrollTrigger_create (theme_subpage_footer header megaMenu) w
       else Some w
     }"

text \<open>The callback the legacy script hands to \<^verbatim>\<open>requestAnimationFrame\<close>.\<close>

definition rebaseline :: "node option \<Rightarrow> node option \<Rightarrow> world \<Rightarrow> world option" where
  "rebaseline header megaMenu w =
     do {
       theme \<leftarrow> calculateInitialTheme (the_page w);
       setTheme header megaMenu theme w
     }"

section \<open>The entry points and the browser running what they scheduled\<close>

text \<open>
  \<^verbatim>\<open>initHeaderThemeLogic\<close>; the two scripts differ here only in which
  \<^verbatim>\<open>initThemeTriggers\<close> they schedule.
\<close>

definition initHeaderThemeLogic :: "script \<Rightarrow> world \<Rightarrow> world option" where
  "initHeaderThemeLogic s w0 =
     (let w = registerPlugin w0;
          header = querySelector (the_page w) ''#main-header'';
          megaMenu = getElementById (the_page w) ''mega-menu''
      in if header = None then Some w
         else if readyState (the_page w) = ''complete''
         then Some (setTimeout (InitThemeTriggers s header megaMenu) 300 w)
         else Some (addEventListener ''load'' (LoadHandler s header megaMenu) w))"

fun run_task :: "task \<Rightarrow> world \<Rightarrow> world option" where
  "run_task (InitThemeTriggers Legacy header megaMenu) w = initThemeTriggers_legacy header megaMenu w"
| "run_task (InitThemeTriggers Current header megaMenu) w = initThemeTriggers header megaMenu w"
| "run_task (LoadHandler s header megaMenu) w =
     Some (setTimeout (InitThemeTriggers s header megaMenu) 300 w)"
| "run_task (Rebaseline header megaMenu) w = rebaseline header megaMenu w"

fun run_tasks :: "task list \<Rightarrow> world \<Rightarrow> world option" where
  "run_tasks [] w = Some w"
| "run_tasks (f # fs) w = do { w1 \<leftarrow> run_task f w; run_tasks fs w1 }"

text \<open>
  What happens to the page after installation: the user scrolls or the layout moves (the
  page is replaced by any other one), the library invokes a callback slot of a registered
  trigger, or the browser reaches the next display frame and runs the queued frame
  callbacks.
\<close>

datatype step = PageChange page | Scroll nat event | Frame

fun run_step :: "step \<Rightarrow> world \<Rightarrow> world option" where
  "run_step (PageChange p) w = Some (w\<lparr>the_page := p\<rparr>)"
| "run_step (Scroll i e) w =
     (if i < length (triggers w) then call_callback (callback_of e (triggers w ! i)) w
      else Some w)"
| "run_step Frame w = run_tasks (frames w) (w\<lparr>frames := []\<rparr>)"

fun run_steps :: "step list \<Rightarrow> world \<Rightarrow> world option" where
  "run_steps [] w = Some w"
| "run_steps (s # ss) w = do { w1 \<leftarrow> run_step s w; run_steps ss w1 }"

section \<open>The triggers of the animations module\<close>

text \<open>
  \<^verbatim>\<open>src/src/scripts/scrollAnimations.js\<close> creates its triggers through the
  \<^verbatim>\<open>scrollTrigger\<close> property of a tween; the configuration objects have no \<^verbatim>\<open>id\<close> and
  no callbacks. Where the script passes the element it found as \<^verbatim>\<open>trigger\<close>, the model
  records the selector that found it.
\<close>

definition initParallax :: "string \<Rightarrow> world \<Rightarrow> world option" where
  "initParallax parallaxEnd w =
     (let heroContent = querySelector (the_page w) ''.hero-container'';
          heroBg = querySelector (the_page w) ''.hero-bg''
      in if heroContent \<noteq> None \<and> heroBg \<noteq> None then
           ScrollTrigger_create
             \<lparr>trigger_id = None, trigger = ''body'', start = Some ''top top'',
              trigger_end = Some parallaxEnd, refreshPriority = None, scrub = Some True,
              toggleActions = None, onEnter = None, onLeaveBack = None, onLeave = None,
              onEnterBack = None\<rparr> w
         else Some w)"

text \<open>
  \<^verbatim>\<open>querySelector\<close> and \<^verbatim>\<open>querySelectorAll\<close> raise a \<^verbatim>\<open>SyntaxError\<close> when the string is
  not a selector; a string that is empty or begins with a combinator is not one, and for
  every other string the page answers. The selectors the theme scripts and
  \<^verbatim>\<open>initParallax\<close> pass are literals that are selectors; \<^verbatim>\<open>initSectionEntrance\<close> passes
  its arguments, and its default child selector is \<^verbatim>\<open>"> *"\<close>, on which
  \<^verbatim>\<open>section.querySelectorAll\<close> raises.
\<close>

definition not_a_selector :: "string \<Rightarrow> bool" where
  "not_a_selector sel =
     (case dropWhile (\<lambda>c. c = CHR '' '') sel of
        [] \<Rightarrow> True
      | c # cs \<Rightarrow> c = CHR ''>'' \<or> c = CHR ''+'' \<or> c = CHR ''~'')"

definition initSectionEntrance ::
  "string \<Rightarrow> string option \<Rightarrow> string option \<Rightarrow> world \<Rightarrow> world option" where
  "initSectionEntrance sectionSelector childSelector_option start_option w =
     (let childSelector = (case childSelector_option of None \<Rightarrow> ''> *'' | Some c \<Rightarrow> c);
          start_value = (case start_option of None \<Rightarrow> ''top 80%'' | Some v \<Rightarrow> v)
      in if not_a_selector sectionSelector then None
         else case querySelector (the_page w) sectionSelector of
            None \<Rightarrow> Some w
          | Some section \<Rightarrow>
              if not_a_selector childSelector then None
              else if childCount (the_page w) section childSelector = 0 then Some w
              else ScrollTrigger_create
                     \<lparr>trigger_id = None, trigger = sectionSelector, start = Some start_value,
                      trigger_end = None, refreshPriority = None, scrub = None,
                      toggleActions = Some ''play none none reverse'', onEnter = None,
                      onLeaveBack = None, onLeave = None, onEnterBack = None\<rparr> w)"

section \<open>Notions used in the statements\<close>

text \<open>A trigger is a theme trigger when its id starts with the namespace prefix.\<close>

definition is_theme :: "vars \<Rightarrow> bool" where
  "is_theme t = (case trigger_id t of None \<Rightarrow> False | Some s \<Rightarrow> startsWith s ''theme-'')"

text \<open>The absolute tops of the sections a selector list finds, and the running minimum.\<close>

definition tops_of :: "page \<Rightarrow> string list \<Rightarrow> number list" where
  "tops_of p sels =
     List.map_filter
       (\<lambda>selector. map_option (\<lambda>n. plus_number (rect_top p n) (scrollY p))
          (querySelector p selector)) sels"

definition keep_min :: "number \<Rightarrow> number \<Rightarrow> number" where
  "keep_min t acc = (if less_number t acc then t else acc)"

definition initialTheme :: "page \<Rightarrow> string" where
  "initialTheme p =
     (if hasHeroSection p \<and>
         less_number (Finite (scrollY p))
           (minus_number (fold keep_min (tops_of p contentSections) Infinity) 100)
      then ''dark'' else ''light'')"

text \<open>
  Attribute writes as data: \<^verbatim>\<open>setTheme\<close> on a header that was found writes the header
  and then the mega menu when there is one; a callback writes what its \<^verbatim>\<open>setTheme\<close> call
  writes.
\<close>

definition theme_writes :: "node \<Rightarrow> node option \<Rightarrow> string \<Rightarrow> (node \<times> string) list" where
  "theme_writes h m th = (h, th) # (case m of None \<Rightarrow> [] | Some k \<Rightarrow> [(k, th)])"

fun callback_writes :: "callback option \<Rightarrow> (node \<times> string) list" where
  "callback_writes (Some (SetTheme (Some h) m th)) = theme_writes h m th"
| "callback_writes c = []"

definition event_writes :: "vars \<Rightarrow> event list \<Rightarrow> (node \<times> string) list" where
  "event_writes v es = concat (map (\<lambda>e. callback_writes (callback_of e v)) es)"

definition apply_writes ::
  "(node \<times> string) list \<Rightarrow> (node \<Rightarrow> string option) \<Rightarrow> node \<Rightarrow> string option" where
  "apply_writes ws d = fold (\<lambda>(n, v) d. d(n := Some v)) ws d"

definition write_calls :: "(node \<times> string) list \<Rightarrow> call list" where
  "write_calls ws = map (\<lambda>(n, v). SetAttribute n v) ws"

definition written :: "(node \<times> string) list \<Rightarrow> world \<Rightarrow> world" where
  "written ws w =
     w\<lparr>data_theme := apply_writes ws (data_theme w), trace := trace w @ write_calls ws\<rparr>"

fun has_header :: "callback option \<Rightarrow> bool" where
  "has_header (Some (SetTheme None m th)) = False"
| "has_header c = True"

definition callable :: "vars \<Rightarrow> bool" where
  "callable v =
     (has_header (onEnter v) \<and> has_header (onLeaveBack v) \<and>
      has_header (onLeave v) \<and> has_header (onEnterBack v))"

text \<open>Registering a trigger, and what the library's synchronous callbacks write.\<close>

definition registered :: "vars \<Rightarrow> world \<Rightarrow> world" where
  "registered v w = w\<lparr>triggers := triggers w @ [v], trace := trace w @ [Create (trigger_id v)]\<rparr>"

definition sync_writes :: "world \<Rightarrow> vars \<Rightarrow> (node \<times> string) list" where
  "sync_writes w v = event_writes v (fires_on_create w (the_page w) v)"

fun create_all :: "vars list \<Rightarrow> world \<Rightarrow> world" where
  "create_all [] w = w"
| "create_all (v # vs) w = create_all vs (written (sync_writes w v) (registered v w))"

definition create_calls :: "world \<Rightarrow> vars list \<Rightarrow> call list" where
  "create_calls w vs =
     concat (map (\<lambda>v. Create (trigger_id v) # write_calls (sync_writes w v)) vs)"

definition all_sync_writes :: "world \<Rightarrow> vars list \<Rightarrow> (node \<times> string) list" where
  "all_sync_writes w vs = concat (map (sync_writes w) vs)"

definition torn_down :: "world \<Rightarrow> world" where
  "torn_down w = ScrollTrigger_refresh (kill_theme_triggers w)"

text \<open>The bindings each script creates on a page, in creation order.\<close>

fun subPageLight_bindings ::
  "node option \<Rightarrow> node option \<Rightarrow> page \<Rightarrow> string list \<Rightarrow> nat \<Rightarrow> vars list" where
  "subPageLight_bindings header megaMenu p [] index = []"
| "subPageLight_bindings header megaMenu p (selector # rest) index =
     (if querySelector p selector \<noteq> None
      then [theme_subpage_light header megaMenu selector index] else [])
     @ subPageLight_bindings header megaMenu p rest (Suc index)"

definition common_bindings :: "node option \<Rightarrow> node option \<Rightarrow> page \<Rightarrow> vars list" where
  "common_bindings header megaMenu p =
     [theme_cabinet header megaMenu, theme_audience header megaMenu, theme_cta header megaMenu,
      theme_contact_section header megaMenu, theme_faq_section header megaMenu]
     @ subPageLight_bindings header megaMenu p subPageLightSections 0"

definition bindings_legacy :: "node option \<Rightarrow> node option \<Rightarrow> page \<Rightarrow> vars list" where
  "bindings_legacy header megaMenu p =
     common_bindings header megaMenu p
     @ (if querySelector p ''.footer-wrapper'' \<noteq> None \<and> querySelector p ''.final-cta'' \<noteq> None
        then [theme_subpage_cta header megaMenu] else [])"

definition bindings_current :: "node option \<Rightarrow> node option \<Rightarrow> page \<Rightarrow> vars list" where
  "bindings_current header megaMenu p =
     common_bindings header megaMenu p
     @ (if querySelector p ''.footer-wrapper'' \<noteq> None
        then [theme_subpage_footer header megaMenu] else [])"

text \<open>The id the template literal gives the light binding of index \<open>k\<close>.\<close>

definition light_id :: "nat \<Rightarrow> string option" where
  "light_id k = Some (''theme-subpage-light-'' @ string_of_index k)"

text \<open>
  A page from which the section a selector finds has been removed, and the sections each
  script binds a trigger to.
\<close>

definition removed :: "string \<Rightarrow> page \<Rightarrow> page" where
  "removed sel p = p\<lparr>querySelector := (querySelector p)(sel := None)\<rparr>"

definition without :: "string \<Rightarrow> world \<Rightarrow> world" where
  "without sel w = w\<lparr>the_page := removed sel (the_page w)\<rparr>"

definition bound_sections_legacy :: "string list" where
  "bound_sections_legacy =
     [''.cabinet-preview'', ''.target-audience'', ''.final-cta'', ''.section-contact'',
      ''.section-faq''] @ subPageLightSections"

definition bound_sections_current :: "string list" where
  "bound_sections_current = bound_sections_legacy @ [''.footer-wrapper'']"

text \<open>What an installation run leaves registered under the theme namespace: id and selector.\<close>

definition bindings_after :: "world option \<Rightarrow> (string option \<times> string) list" where
  "bindings_after r =
     (case r of None \<Rightarrow> []
      | Some w \<Rightarrow> map (\<lambda>t. (trigger_id t, trigger t)) (filter is_theme (triggers w)))"

subsection \<open>Example pages\<close>

text \<open>
  A sub-page: header (node 0), mega menu (8), page hero (2), one content section (3) whose
  top is 500px into the document, a final call to action (4) and the footer wrapper (5);
  inside the hero, its container (6) and background (7). The page is scrolled by 250px.
\<close>

definition subpage_selectors :: "string \<Rightarrow> node option" where
  "subpage_selectors sel =
     (if sel = ''#main-header'' then Some 0
      else if sel = ''.page-hero'' then Some 2
      else if sel = ''.section-content'' then Some 3
      else if sel = ''.final-cta'' then Some 4
      else if sel = ''.footer-wrapper'' then Some 5
      else if sel = ''.hero-container'' then Some 6
      else if sel = ''.hero-bg'' then Some 7
      else None)"

definition subpage_ids :: "string \<Rightarrow> node option" where
  "subpage_ids i = (if i = ''mega-menu'' then Some 8 else None)"

definition subpage_tops :: "node \<Rightarrow> real" where
  "subpage_tops n = (if n = 3 then 250 else if n = 4 then 1250 else if n = 5 then 1250 else - 250)"

definition subpage_children :: "node \<Rightarrow> string \<Rightarrow> nat" where
  "subpage_children n sel = (if n = 3 then 2 else 0)"

definition subpage :: page where
  "subpage =
     \<lparr>querySelector = subpage_selectors, getElementById = subpage_ids,
      rect_top = subpage_tops, scrollY = 250, readyState = ''complete'',
      childCount = subpage_children\<rparr>"

text \<open>The same page scrolled to 400px, where the content section reaches the header.\<close>

definition subpage_tops_400 :: "node \<Rightarrow> real" where
  "subpage_tops_400 n = (if n = 3 then 100 else if n = 4 then 1100 else if n = 5 then 1100 else - 400)"

definition subpage_at_400 :: page where
  "subpage_at_400 = subpage\<lparr>rect_top := subpage_tops_400, scrollY := 400\<rparr>"

text \<open>The same markup without hero and without any candidate content section.\<close>

definition bare_selectors :: "string \<Rightarrow> node option" where
  "bare_selectors sel = (if sel = ''#main-header'' then Some 0 else None)"

definition bare_page :: page where
  "bare_page = subpage\<lparr>querySelector := bare_selectors\<rparr>"

definition hero_only_selectors :: "string \<Rightarrow> node option" where
  "hero_only_selectors sel =
     (if sel = ''#main-header'' then Some 0 else if sel = ''.hero'' then Some 2 else None)"

definition hero_only_page :: page where
  "hero_only_page = subpage\<lparr>querySelector := hero_only_selectors\<rparr>"

text \<open>
  A page whose content section is 100px below the viewport top while the page is scrolled
  by the double nearest to 0.2: the sum 100.2 is not a double.
\<close>

definition fraction_tops :: "node \<Rightarrow> real" where
  "fraction_tops n = (if n = 3 then 100 else 0)"

definition fraction_page :: page where
  "fraction_page =
     subpage\<lparr>rect_top := fraction_tops, scrollY := 3602879701896397 / 18014398509481984\<rparr>"

subsection \<open>Example worlds\<close>

text \<open>
  The sub-page before either script has run: no \<^verbatim>\<open>data-theme\<close> attribute anywhere, the
  parallax trigger of the animations module registered, nothing queued. The library of
  this world fires \<^verbatim>\<open>onEnter\<close> at once for the trigger bound to \<^verbatim>\<open>.cabinet-preview\<close>,
  a section the sub-page does not have.
\<close>

definition no_theme :: "node \<Rightarrow> string option" where
  "no_theme n = None"

definition eager_library :: "page \<Rightarrow> vars \<Rightarrow> event list" where
  "eager_library p v = (if trigger v = ''.cabinet-preview'' then [Enter] else [])"

definition quiet_library :: "page \<Rightarrow> vars \<Rightarrow> event list" where
  "quiet_library p v = []"

definition parallax_trigger :: vars where
  "parallax_trigger =
     \<lparr>trigger_id = None, trigger = ''body'', start = Some ''top top'',
      trigger_end = Some ''bottom top'', refreshPriority = None, scrub = Some True,
      toggleActions = None, onEnter = None, onLeaveBack = None, onLeave = None,
      onEnterBack = None\<rparr>"

definition entrance_trigger :: vars where
  "entrance_trigger =
     \<lparr>trigger_id = None, trigger = ''.section-content'', start = Some ''top 80%'',
      trigger_end = None, refreshPriority = None, scrub = None,
      toggleActions = Some ''play none none reverse'', onEnter = None,
      onLeaveBack = None, onLeave = None, onEnterBack = None\<rparr>"

definition subpage_world :: world where
  "subpage_world =
     \<lparr>the_page = subpage, data_theme = no_theme, triggers = [parallax_trigger],
      fires_on_create = eager_library, frames = [], timeouts = [], listeners = [],
      trace = []\<rparr>"

definition quiet_world :: world where
  "quiet_world = subpage_world\<lparr>fires_on_create := quiet_library\<rparr>"

text \<open>A page that has no \<^verbatim>\<open>#main-header\<close>.\<close>

definition no_selectors :: "string \<Rightarrow> node option" where
  "no_selectors sel = None"

definition headless_world :: world where
  "headless_world = subpage_world\<lparr>the_page := subpage\<lparr>querySelector := no_selectors\<rparr>\<rparr>"

subsection \<open>Theme values and well-behaved triggers\<close>

text \<open>
  The two theme values as attribute contents. A callback is tame when it is one of the
  scripts' \<^verbatim>\<open>setTheme\<close> closures over a header that was found, writing one of the two
  values; a trigger is tame when all its callback slots are (a trigger without callbacks
  is); a queued task is tame when the header it closes over was found.
\<close>

definition light_or_dark :: "string option \<Rightarrow> bool" where
  "light_or_dark a = (a = Some ''light'' \<or> a = Some ''dark'')"

fun tame_callback :: "callback option \<Rightarrow> bool" where
  "tame_callback None = True"
| "tame_callback (Some (SetTheme h m th)) = (h \<noteq> None \<and> (th = ''light'' \<or> th = ''dark''))"

definition tame :: "vars \<Rightarrow> bool" where
  "tame v =
     (tame_callback (onEnter v) \<and> tame_callback (onLeaveBack v) \<and>
      tame_callback (onLeave v) \<and> tame_callback (onEnterBack v))"

fun tame_task :: "task \<Rightarrow> bool" where
  "tame_task (Rebaseline h m) = (h \<noteq> None)"
| "tame_task (InitThemeTriggers s h m) = (h \<noteq> None)"
| "tame_task (LoadHandler s h m) = True"

definition good_writes :: "(node \<times> string) list \<Rightarrow> bool" where
  "good_writes ws = list_all (\<lambda>x. snd x = ''light'' \<or> snd x = ''dark'') ws"

definition settled :: "world \<Rightarrow> bool" where
  "settled w = (list_all tame (triggers w) \<and> list_all tame_task (frames w))"

definition themed :: "world \<Rightarrow> world \<Rightarrow> bool" where
  "themed w w' = (\<forall>n. data_theme w' n = data_theme w n \<or> light_or_dark (data_theme w' n))"

definition installable :: "world \<Rightarrow> bool" where
  "installable w =
     (list_all tame (filter (\<lambda>t. \<not> is_theme t) (triggers w)) \<and> list_all tame_task (frames w))"




subsection \<open>Crossing the boundary of a section\<close>





definition enter_theme :: "string \<Rightarrow> string" where
  "enter_theme sel =
     (if sel = ''.target-audience'' \<or> sel = ''.footer-wrapper'' then ''dark'' else ''light'')"

subsection \<open>The library on sections that are absent\<close>

text \<open>
  The five sections both scripts bind without looking them up first. A library enters
  absent sections when, at creation, it fires \<^verbatim>\<open>onEnter\<close> for every trigger whose selector
  finds no element: the synchronous \<^verbatim>\<open>onEnter\<close> the comments of the legacy script speak
  of. \<open>gsap_world\<close> is the example sub-page with a library that does exactly that and
  nothing else.
\<close>

definition fixed_sections :: "string list" where
  "fixed_sections =
     [''.cabinet-preview'', ''.target-audience'', ''.final-cta'', ''.section-contact'',
      ''.section-faq'']"

definition enters_absent :: "world \<Rightarrow> vars \<Rightarrow> bool" where
  "enters_absent w v =
     (querySelector (the_page w) (trigger v) = None \<longrightarrow>
      Enter \<in> set (fires_on_create w (the_page w) v))"

definition absent_enter_library :: "page \<Rightarrow> vars \<Rightarrow> event list" where
  "absent_enter_library p v = (if querySelector p (trigger v) = None then [Enter] else [])"

definition gsap_world :: world where
  "gsap_world = subpage_world\<lparr>fires_on_create := absent_enter_library\<rparr>"







section \<open>Basic facts\<close>

subsection \<open>The resolver\<close>

lemma forEach_fold:
  "firstContentTop_forEach p sels acc = Some (fold keep_min (tops_of p sels) acc)"
  by (induction sels arbitrary: acc)
     (auto simp: tops_of_def keep_min_def List.map_filter_simps getBoundingClientRect_top_def Let_def)

lemma less_number_irrefl [simp]: "\<not> less_number a a"
  by (cases a) simp_all

lemma less_number_trans: "less_number a b \<Longrightarrow> less_number b c \<Longrightarrow> less_number a c"
  by (cases a; cases b; cases c) simp_all

lemma less_number_total: "a \<noteq> b \<Longrightarrow> less_number a b \<or> less_number b a"
  by (cases a; cases b) auto

lemma not_less_Infinity: "\<not> less_number t Infinity \<Longrightarrow> t = Infinity"
  by (cases t) simp_all

lemma fold_keep_min_least:
  "fold keep_min ts acc = m \<Longrightarrow>
   (m = acc \<or> m \<in> set ts) \<and> \<not> less_number acc m \<and> (\<forall>t\<in>set ts. \<not> less_number t m)"
proof (induction ts arbitrary: acc)
  case Nil
  then show ?case by simp
next
  case (Cons t ts)
  let ?k = "keep_min t acc"
  have ih: "(m = ?k \<or> m \<in> set ts)" "\<not> less_number ?k m" "\<forall>u\<in>set ts. \<not> less_number u m"
    using Cons.IH[of ?k] Cons.prems by simp_all
  have k: "(?k = t \<and> less_number t acc) \<or> (?k = acc \<and> \<not> less_number t acc)"
    by (simp add: keep_min_def)
  have a: "\<not> less_number acc m"
  proof
    assume l: "less_number acc m"
    from k show False
    proof
      assume "?k = t \<and> less_number t acc"
      then show False using l ih(2) less_number_trans by metis
    next
      assume "?k = acc \<and> \<not> less_number t acc"
      then show False using l ih(2) by simp
    qed
  qed
  have b: "\<not> less_number t m"
  proof
    assume l: "less_number t m"
    from k show False
    proof
      assume "?k = t \<and> less_number t acc"
      then show False using l ih(2) by simp
    next
      assume c: "?k = acc \<and> \<not> less_number t acc"
      then have "acc = t \<or> less_number acc t" using less_number_total by blast
      then have "less_number acc m" using l less_number_trans by blast
      then show False using a by simp
    qed
  qed
  have "m = acc \<or> m \<in> set (t # ts)" using ih(1) k by auto
  then show ?case using a b ih(3) by simp
qed

lemma fold_keep_min_Infinity:
  assumes "ts \<noteq> []"
  shows "fold keep_min ts Infinity \<in> set ts \<and>
         (\<forall>t\<in>set ts. \<not> less_number t (fold keep_min ts Infinity))"
proof -
  let ?m = "fold keep_min ts Infinity"
  have f: "?m = Infinity \<or> ?m \<in> set ts" "\<forall>t\<in>set ts. \<not> less_number t ?m"
    using fold_keep_min_least[of ts Infinity ?m] by simp_all
  obtain t where t: "t \<in> set ts" using assms by (cases ts) auto
  have "?m \<in> set ts"
  proof (cases "?m = Infinity")
    case True
    then have "t = Infinity" using f(2) t not_less_Infinity by metis
    then show ?thesis using True t by simp
  next
    case False
    then show ?thesis using f(1) by simp
  qed
  then show ?thesis using f(2) by simp
qed

lemma candidateTops_tops_of: "candidateTops p = tops_of p contentSections"
  by (simp add: candidateTops_def tops_of_def)

lemma calculateInitialTheme_total: "calculateInitialTheme p = Some (initialTheme p)"
  by (simp add: calculateInitialTheme_def forEach_fold initialTheme_def hasHeroSection_def)

lemma tops_of_absent:
  "\<forall>sel\<in>set sels. querySelector p sel = None \<Longrightarrow> tops_of p sels = []"
  by (induction sels) (simp_all add: tops_of_def List.map_filter_simps)

subsection \<open>Attribute writes\<close>

lemma written_Nil [simp]: "written [] w = w"
  by (simp add: written_def apply_writes_def write_calls_def)

lemma written_append: "written (xs @ ys) w = written ys (written xs w)"
  by (simp add: written_def apply_writes_def write_calls_def)

lemma apply_writes_append: "apply_writes (xs @ ys) d = apply_writes ys (apply_writes xs d)"
  by (simp add: apply_writes_def)

lemma written_fields [simp]:
  "the_page (written ws w) = the_page w" "triggers (written ws w) = triggers w"
  "fires_on_create (written ws w) = fires_on_create w" "frames (written ws w) = frames w"
  "timeouts (written ws w) = timeouts w" "listeners (written ws w) = listeners w"
  "data_theme (written ws w) = apply_writes ws (data_theme w)"
  "trace (written ws w) = trace w @ write_calls ws"
  by (simp_all add: written_def)

lemma setTheme_written: "setTheme (Some h) m th w = Some (written (theme_writes h m th) w)"
  by (cases m)
     (simp_all add: setTheme_def setAttribute_def written_def theme_writes_def apply_writes_def
        write_calls_def)

lemma call_callback_written:
  "has_header c \<Longrightarrow> call_callback c w = Some (written (callback_writes c) w)"
  by (induction c rule: has_header.induct) (simp_all add: setTheme_written)

lemma callable_has_header: "callable v \<Longrightarrow> has_header (callback_of e v)"
  by (cases e) (simp_all add: callable_def)

lemma fire_events_written:
  "callable v \<Longrightarrow> fire_events es v w = Some (written (event_writes v es) w)"
proof (induction es arbitrary: w)
  case Nil
  then show ?case by (simp add: event_writes_def)
next
  case (Cons e es)
  have "call_callback (callback_of e v) w = Some (written (callback_writes (callback_of e v)) w)"
    using Cons.prems by (simp add: call_callback_written callable_has_header)
  then show ?case using Cons by (simp add: event_writes_def written_append)
qed

subsection \<open>Creating triggers\<close>

lemma registered_fields [simp]:
  "the_page (registered v w) = the_page w" "triggers (registered v w) = triggers w @ [v]"
  "fires_on_create (registered v w) = fires_on_create w" "frames (registered v w) = frames w"
  "timeouts (registered v w) = timeouts w" "listeners (registered v w) = listeners w"
  "data_theme (registered v w) = data_theme w"
  "trace (registered v w) = trace w @ [Create (trigger_id v)]"
  by (simp_all add: registered_def)

lemma create_written:
  "callable v \<Longrightarrow> ScrollTrigger_create v w = Some (written (sync_writes w v) (registered v w))"
  by (simp add: ScrollTrigger_create_def fire_events_written registered_def sync_writes_def)

lemma create_all_append: "create_all (xs @ ys) w = create_all ys (create_all xs w)"
  by (induction xs arbitrary: w) simp_all

lemma sync_writes_step [simp]: "sync_writes (written ws (registered v w)) = sync_writes w"
  by (rule ext) (simp add: sync_writes_def)

lemma sync_writes_cong:
  "the_page w' = the_page w \<Longrightarrow> fires_on_create w' = fires_on_create w \<Longrightarrow>
   sync_writes w' = sync_writes w"
  by (rule ext) (simp add: sync_writes_def)

lemma create_all_fields:
  "the_page (create_all vs w) = the_page w"
  "fires_on_create (create_all vs w) = fires_on_create w"
  "frames (create_all vs w) = frames w"
  "timeouts (create_all vs w) = timeouts w"
  "listeners (create_all vs w) = listeners w"
  "triggers (create_all vs w) = triggers w @ vs"
  by (induction vs arbitrary: w) simp_all

lemma create_all_data_theme:
  "data_theme (create_all vs w) = apply_writes (all_sync_writes w vs) (data_theme w)"
proof (induction vs arbitrary: w)
  case Nil
  then show ?case by (simp add: all_sync_writes_def apply_writes_def)
next
  case (Cons v vs)
  let ?w1 = "written (sync_writes w v) (registered v w)"
  have "all_sync_writes ?w1 vs = all_sync_writes w vs"
    by (simp add: all_sync_writes_def)
  then show ?case using Cons[of ?w1]
    by (simp add: all_sync_writes_def apply_writes_append)
qed

lemma create_all_trace: "trace (create_all vs w) = trace w @ create_calls w vs"
proof (induction vs arbitrary: w)
  case Nil
  then show ?case by (simp add: create_calls_def)
next
  case (Cons v vs)
  let ?w1 = "written (sync_writes w v) (registered v w)"
  have "create_calls ?w1 vs = create_calls w vs"
    by (simp add: create_calls_def)
  then show ?case using Cons[of ?w1]
    by (simp add: create_calls_def)
qed

lemma callable_bindings [simp]:
  "callable (theme_cabinet (Some h) m)" "callable (theme_audience (Some h) m)"
  "callable (theme_cta (Some h) m)" "callable (theme_contact_section (Some h) m)"
  "callable (theme_faq_section (Some h) m)" "callable (theme_subpage_light (Some h) m sel i)"
  "callable (theme_subpage_cta (Some h) m)" "callable (theme_subpage_footer (Some h) m)"
  by (simp_all add: callable_def theme_cabinet_def theme_audience_def theme_cta_def
        theme_contact_section_def theme_faq_section_def theme_subpage_light_def
        theme_subpage_cta_def theme_subpage_footer_def)

lemma subPageLight_forEach_create_all:
  "subPageLight_forEach (Some h) m sels i w =
     Some (create_all (subPageLight_bindings (Some h) m (the_page w) sels i) w)"
proof (induction sels arbitrary: i w)
  case Nil
  then show ?case by simp
next
  case (Cons sel sels)
  show ?case by (simp add: Let_def create_written Cons.IH)
qed

subsection \<open>Teardown\<close>

lemma truthy_is_theme: "truthy (optional_startsWith (trigger_id t) ''theme-'') = is_theme t"
  by (simp add: truthy_def optional_startsWith_def is_theme_def split: option.splits)

lemma kill_forEach_fields [simp]:
  "the_page (kill_forEach ts w) = the_page w"
  "data_theme (kill_forEach ts w) = data_theme w"
  "fires_on_create (kill_forEach ts w) = fires_on_create w"
  "frames (kill_forEach ts w) = frames w"
  "timeouts (kill_forEach ts w) = timeouts w"
  "listeners (kill_forEach ts w) = listeners w"
  by (induction ts arbitrary: w) (simp_all add: kill_def)

lemma kill_forEach_trace:
  "trace (kill_forEach ts w) = trace w @ map (\<lambda>t. Kill (trigger_id t)) (filter is_theme ts)"
  by (induction ts arbitrary: w) (simp_all add: kill_def truthy_is_theme)

lemma kill_forEach_triggers:
  "triggers w = ks @ ts \<Longrightarrow> \<forall>k\<in>set ks. \<not> is_theme k \<Longrightarrow>
   triggers (kill_forEach ts w) = ks @ filter (\<lambda>t. \<not> is_theme t) ts"
proof (induction ts arbitrary: w ks)
  case Nil
  then show ?case by simp
next
  case (Cons t ts)
  show ?case
  proof (cases "is_theme t")
    case True
    then have "t \<notin> set ks" using Cons.prems(2) by blast
    then have "triggers (kill t w) = ks @ ts"
      using Cons.prems(1) by (simp add: kill_def remove1_append)
    from Cons.IH[OF this Cons.prems(2)] True show ?thesis
      by (simp add: truthy_is_theme)
  next
    case False
    have "triggers w = (ks @ [t]) @ ts" using Cons.prems(1) by simp
    moreover have "\<forall>k\<in>set (ks @ [t]). \<not> is_theme k" using Cons.prems(2) False by simp
    ultimately have "triggers (kill_forEach ts w) = (ks @ [t]) @ filter (\<lambda>t. \<not> is_theme t) ts"
      by (rule Cons.IH)
    with False show ?thesis by (simp add: truthy_is_theme)
  qed
qed

lemma kill_theme_triggers_fields [simp]:
  "the_page (kill_theme_triggers w) = the_page w"
  "data_theme (kill_theme_triggers w) = data_theme w"
  "fires_on_create (kill_theme_triggers w) = fires_on_create w"
  "frames (kill_theme_triggers w) = frames w"
  "timeouts (kill_theme_triggers w) = timeouts w"
  "listeners (kill_theme_triggers w) = listeners w"
  "triggers (kill_theme_triggers w) = filter (\<lambda>t. \<not> is_theme t) (triggers w)"
  "trace (kill_theme_triggers w) =
     trace w @ map (\<lambda>t. Kill (trigger_id t)) (filter is_theme (triggers w))"
  using kill_forEach_triggers[of w "[]" "triggers w"]
  by (simp_all add: kill_theme_triggers_def kill_forEach_trace)

lemma torn_down_fields [simp]:
  "the_page (torn_down w) = the_page w"
  "data_theme (torn_down w) = data_theme w"
  "fires_on_create (torn_down w) = fires_on_create w"
  "frames (torn_down w) = frames w"
  "timeouts (torn_down w) = timeouts w"
  "listeners (torn_down w) = listeners w"
  "triggers (torn_down w) = filter (\<lambda>t. \<not> is_theme t) (triggers w)"
  "trace (torn_down w) =
     trace w @ map (\<lambda>t. Kill (trigger_id t)) (filter is_theme (triggers w)) @ [Refresh]"
  by (simp_all add: torn_down_def ScrollTrigger_refresh_def)

subsection \<open>Installation in closed form\<close>

lemma initThemeTriggers_legacy_eq:
  "initThemeTriggers_legacy (Some h) m w =
     Some (requestAnimationFrame (Rebaseline (Some h) m)
            (create_all (bindings_legacy (Some h) m (the_page w))
              (written (theme_writes h m (initialTheme (the_page w))) (torn_down w))))"
proof -
  have "the_page (ScrollTrigger_refresh (kill_theme_triggers w)) = the_page w"
    by (simp add: ScrollTrigger_refresh_def)
  then show ?thesis
    by (simp add: initThemeTriggers_legacy_def Let_def calculateInitialTheme_total
          setTheme_written create_written subPageLight_forEach_create_all create_all_fields
          bindings_legacy_def common_bindings_def create_all_append torn_down_def)
qed

lemma initThemeTriggers_eq:
  "initThemeTriggers (Some h) m w =
     Some (create_all (bindings_current (Some h) m (the_page w)) (torn_down w))"
proof -
  have "the_page (ScrollTrigger_refresh (kill_theme_triggers w)) = the_page w"
    by (simp add: ScrollTrigger_refresh_def)
  then show ?thesis
    by (simp add: initThemeTriggers_def Let_def create_written subPageLight_forEach_create_all
          create_all_fields bindings_current_def common_bindings_def create_all_append
          torn_down_def)
qed

lemma rebaseline_written:
  "rebaseline (Some h) m w = Some (written (theme_writes h m (initialTheme (the_page w))) w)"
  by (simp add: rebaseline_def calculateInitialTheme_total setTheme_written)

subsection \<open>What the scripts register\<close>

lemma is_theme_bindings [simp]:
  "is_theme (theme_cabinet h m)" "is_theme (theme_audience h m)"
  "is_theme (theme_cta h m)" "is_theme (theme_contact_section h m)"
  "is_theme (theme_faq_section h m)" "is_theme (theme_subpage_light h m sel i)"
  "is_theme (theme_subpage_cta h m)" "is_theme (theme_subpage_footer h m)"
  by (simp_all add: is_theme_def startsWith_def theme_cabinet_def theme_audience_def theme_cta_def
        theme_contact_section_def theme_faq_section_def theme_subpage_light_def
        theme_subpage_cta_def theme_subpage_footer_def)

lemma is_theme_subPageLight: "list_all is_theme (subPageLight_bindings h m p sels i)"
  by (induction sels arbitrary: i) simp_all

lemma is_theme_bindings_legacy: "list_all is_theme (bindings_legacy h m p)"
  by (simp add: bindings_legacy_def common_bindings_def is_theme_subPageLight)

lemma is_theme_bindings_current: "list_all is_theme (bindings_current h m p)"
  by (simp add: bindings_current_def common_bindings_def is_theme_subPageLight)

lemma legacy_triggers:
  "\<exists>w1. initThemeTriggers_legacy (Some h) m w = Some w1 \<and>
     triggers w1 =
       filter (\<lambda>t. \<not> is_theme t) (triggers w) @ bindings_legacy (Some h) m (the_page w)"
  by (simp add: initThemeTriggers_legacy_eq requestAnimationFrame_def create_all_fields)

lemma current_triggers:
  "\<exists>w1. initThemeTriggers (Some h) m w = Some w1 \<and>
     triggers w1 =
       filter (\<lambda>t. \<not> is_theme t) (triggers w) @ bindings_current (Some h) m (the_page w)"
  by (simp add: initThemeTriggers_eq create_all_fields)

lemma create_no_callbacks:
  assumes "onEnter v = None" "onLeaveBack v = None" "onLeave v = None" "onEnterBack v = None"
  shows "ScrollTrigger_create v w = Some (registered v w)"
proof -
  have c: "callable v" using assms by (simp add: callable_def)
  have "callback_writes (callback_of e v) = []" for e using assms by (cases e) simp_all
  then have "sync_writes w v = []" by (simp add: sync_writes_def event_writes_def)
  then show ?thesis using create_written[OF c, of w] by simp
qed

subsection \<open>Installation, field by field\<close>

lemma apply_writes_last:
  "apply_writes ws d n = (case map_of (rev ws) n of None \<Rightarrow> d n | Some v \<Rightarrow> Some v)"
proof (induction ws arbitrary: d)
  case Nil then show ?case by (simp add: apply_writes_def)
next
  case (Cons a ws)
  obtain k v where a: "a = (k, v)" by (cases a)
  have "apply_writes (a # ws) d n = apply_writes ws (d(k := Some v)) n"
    by (simp add: apply_writes_def a)
  then show ?case using Cons[of "d(k := Some v)"]
    by (auto simp add: a map_add_def split: option.splits)
qed

lemma apply_writes_idem: "apply_writes ws (apply_writes ws d) = apply_writes ws d"
  by (rule ext) (simp add: apply_writes_last split: option.splits)

lemma all_sync_writes_cong:
  "the_page w' = the_page w \<Longrightarrow> fires_on_create w' = fires_on_create w \<Longrightarrow>
   all_sync_writes w' vs = all_sync_writes w vs"
  using sync_writes_cong[of w' w] by (simp add: all_sync_writes_def)

lemma create_calls_cong:
  "the_page w' = the_page w \<Longrightarrow> fires_on_create w' = fires_on_create w \<Longrightarrow>
   create_calls w' vs = create_calls w vs"
  using sync_writes_cong[of w' w] by (simp add: create_calls_def)

lemma legacy_fields:
  "\<exists>w1. initThemeTriggers_legacy (Some h) m w = Some w1 \<and>
     the_page w1 = the_page w \<and> fires_on_create w1 = fires_on_create w \<and>
     timeouts w1 = timeouts w \<and> listeners w1 = listeners w \<and>
     frames w1 = frames w @ [Rebaseline (Some h) m] \<and>
     triggers w1 =
       filter (\<lambda>t. \<not> is_theme t) (triggers w) @ bindings_legacy (Some h) m (the_page w) \<and>
     data_theme w1 =
       apply_writes (theme_writes h m (initialTheme (the_page w))
                     @ all_sync_writes w (bindings_legacy (Some h) m (the_page w)))
         (data_theme w) \<and>
     trace w1 =
       trace w @ map (\<lambda>t. Kill (trigger_id t)) (filter is_theme (triggers w)) @ [Refresh]
       @ write_calls (theme_writes h m (initialTheme (the_page w)))
       @ create_calls w (bindings_legacy (Some h) m (the_page w)) @ [RequestAnimationFrame]"
proof -
  let ?w0 = "written (theme_writes h m (initialTheme (the_page w))) (torn_down w)"
  have "all_sync_writes ?w0 = all_sync_writes w" "create_calls ?w0 = create_calls w"
    by (rule ext, rule all_sync_writes_cong, simp, simp, rule ext, rule create_calls_cong, simp, simp)
  then show ?thesis
    by (simp add: initThemeTriggers_legacy_eq requestAnimationFrame_def create_all_fields
          create_all_data_theme create_all_trace apply_writes_append)
qed

lemma current_fields:
  "\<exists>w1. initThemeTriggers (Some h) m w = Some w1 \<and>
     the_page w1 = the_page w \<and> fires_on_create w1 = fires_on_create w \<and>
     timeouts w1 = timeouts w \<and> listeners w1 = listeners w \<and>
     frames w1 = frames w \<and>
     triggers w1 =
       filter (\<lambda>t. \<not> is_theme t) (triggers w) @ bindings_current (Some h) m (the_page w) \<and>
     data_theme w1 =
       apply_writes (all_sync_writes w (bindings_current (Some h) m (the_page w))) (data_theme w) \<and>
     trace w1 =
       trace w @ map (\<lambda>t. Kill (trigger_id t)) (filter is_theme (triggers w)) @ [Refresh]
       @ create_calls w (bindings_current (Some h) m (the_page w))"
proof -
  have "all_sync_writes (torn_down w) = all_sync_writes w" "create_calls (torn_down w) = create_calls w"
    by (rule ext, rule all_sync_writes_cong, simp, simp, rule ext, rule create_calls_cong, simp, simp)
  then show ?thesis
    by (simp add: initThemeTriggers_eq create_all_fields
          create_all_data_theme create_all_trace)
qed

lemma theme_writes_header: "apply_writes (theme_writes h m th) d h = Some th"
  by (cases m) (simp_all add: theme_writes_def apply_writes_def)

subsection \<open>The example sub-page\<close>

lemma string_of_index_small: "n < 10 \<Longrightarrow> string_of_index n = [''0123456789'' ! n]"
  by (simp add: string_of_index.simps)

lemma subpage_bindings_legacy:
  "bindings_legacy (Some 0) (Some 8) subpage =
     [theme_cabinet (Some 0) (Some 8), theme_audience (Some 0) (Some 8),
      theme_cta (Some 0) (Some 8), theme_contact_section (Some 0) (Some 8),
      theme_faq_section (Some 0) (Some 8),
      theme_subpage_light (Some 0) (Some 8) ''.section-content'' 3,
      theme_subpage_cta (Some 0) (Some 8)]"
  by (simp add: bindings_legacy_def common_bindings_def subPageLightSections_def subpage_def
        subpage_selectors_def eval_nat_numeral)

lemma subpage_bindings_current:
  "bindings_current (Some 0) (Some 8) subpage =
     [theme_cabinet (Some 0) (Some 8), theme_audience (Some 0) (Some 8),
      theme_cta (Some 0) (Some 8), theme_contact_section (Some 0) (Some 8),
      theme_faq_section (Some 0) (Some 8),
      theme_subpage_light (Some 0) (Some 8) ''.section-content'' 3,
      theme_subpage_footer (Some 0) (Some 8)]"
  by (simp add: bindings_current_def common_bindings_def subPageLightSections_def subpage_def
        subpage_selectors_def eval_nat_numeral)

lemma to_double_examples:
  "to_double 500 = Finite 500" "to_double 400 = Finite 400"
  "to_double (1805042730650094797 / 18014398509481984)
     = Finite (7050948166601933 / 70368744177664)"
  "to_double (14073748835533 / 70368744177664) = Finite (14073748835533 / 70368744177664)"
  by (simp_all add: to_double_def exponent_def binade_up.simps binade_down.simps pow2_def
        ties_to_even_def Let_def)

lemma subpage_tops_of:
  "tops_of subpage contentSections = [Finite 500]"
  "tops_of subpage_at_400 contentSections = [Finite 500]"
  by (simp_all add: tops_of_def contentSections_def subpage_def subpage_at_400_def
        subpage_selectors_def subpage_tops_def subpage_tops_400_def List.map_filter_simps
        plus_number_def to_double_examples)

lemma subpage_initialTheme: "initialTheme subpage = ''dark''"
  by (simp add: initialTheme_def subpage_tops_of keep_min_def to_double_examples)
     (simp add: hasHeroSection_def subpage_def subpage_selectors_def)

lemma eager_sync_writes:
  "all_sync_writes subpage_world (bindings_legacy (Some 0) (Some 8) subpage) = [(0, ''light''), (8, ''light'')]"
  by (simp add: subpage_bindings_legacy all_sync_writes_def sync_writes_def subpage_world_def
        eager_library_def event_writes_def theme_writes_def
        theme_cabinet_def theme_audience_def theme_cta_def
        theme_contact_section_def theme_faq_section_def theme_subpage_light_def
        theme_subpage_cta_def)

lemma filter_theme_kept:
  "list_all is_theme bs \<Longrightarrow>
   filter is_theme (filter (\<lambda>t. \<not> is_theme t) ts @ bs) = bs"
  "list_all is_theme bs \<Longrightarrow>
   filter (\<lambda>t. \<not> is_theme t) (filter (\<lambda>t. \<not> is_theme t) ts @ bs) = filter (\<lambda>t. \<not> is_theme t) ts"
  by (induction ts) (simp_all add: list_all_iff filter_id_conv filter_empty_conv)


subsection \<open>Binding ids are distinct\<close>

lemma trigger_id_light [simp]: "trigger_id (theme_subpage_light h m sel i) = light_id i"
  by (simp add: theme_subpage_light_def light_id_def)

lemma light_id_eq: "light_id i = light_id k \<Longrightarrow> string_of_index i = string_of_index k"
  by (simp add: light_id_def)

lemma light_id_neq [simp]:
  "light_id k \<noteq> Some ''theme-cabinet''" "light_id k \<noteq> Some ''theme-audience''"
  "light_id k \<noteq> Some ''theme-cta''" "light_id k \<noteq> Some ''theme-contact-section''"
  "light_id k \<noteq> Some ''theme-faq-section''" "light_id k \<noteq> Some ''theme-subpage-cta''"
  "light_id k \<noteq> Some ''theme-subpage-footer''"
  "Some ''theme-cabinet'' \<noteq> light_id k" "Some ''theme-audience'' \<noteq> light_id k"
  "Some ''theme-cta'' \<noteq> light_id k" "Some ''theme-contact-section'' \<noteq> light_id k"
  "Some ''theme-faq-section'' \<noteq> light_id k" "Some ''theme-subpage-cta'' \<noteq> light_id k"
  "Some ''theme-subpage-footer'' \<noteq> light_id k"
  by (simp_all add: light_id_def)

lemma subPageLight_ids:
  "set (map trigger_id (subPageLight_bindings h m p sels i)) \<subseteq> light_id ` {i..<i + length sels}"
proof (induction sels arbitrary: i)
  case Nil
  then show ?case by simp
next
  case (Cons sel sels)
  have "light_id ` {Suc i..<Suc i + length sels} \<subseteq> light_id ` {i..<i + length (sel # sels)}"
    by (rule image_mono) auto
  then have "set (map trigger_id (subPageLight_bindings h m p sels (Suc i)))
     \<subseteq> light_id ` {i..<i + length (sel # sels)}"
    using Cons.IH[of "Suc i"] by (rule subset_trans[rotated])
  moreover have "light_id i \<in> light_id ` {i..<i + length (sel # sels)}" by simp
  ultimately show ?case by auto
qed

lemma not_light_fresh:
  "(\<And>k. x \<noteq> light_id k) \<Longrightarrow> x \<notin> set (map trigger_id (subPageLight_bindings h m p sels i))"
  using subPageLight_ids[of h m p sels i] by blast

lemma distinct_subPageLight:
  "inj_on string_of_index {i..<i + length sels} \<Longrightarrow>
   distinct (map trigger_id (subPageLight_bindings h m p sels i))"
proof (induction sels arbitrary: i)
  case Nil
  then show ?case by simp
next
  case (Cons sel sels)
  have sub: "{Suc i..<Suc i + length sels} \<subseteq> {i..<i + length (sel # sels)}" by auto
  then have "inj_on string_of_index {Suc i..<Suc i + length sels}"
    using Cons.prems by (rule inj_on_subset[rotated])
  then have d: "distinct (map trigger_id (subPageLight_bindings h m p sels (Suc i)))"
    by (rule Cons.IH)
  have "trigger_id (theme_subpage_light h m sel i)
          \<notin> set (map trigger_id (subPageLight_bindings h m p sels (Suc i)))"
  proof
    assume "trigger_id (theme_subpage_light h m sel i)
          \<in> set (map trigger_id (subPageLight_bindings h m p sels (Suc i)))"
    then obtain k where k: "k \<in> {Suc i..<Suc i + length sels}"
      and e: "trigger_id (theme_subpage_light h m sel i) = light_id k"
      using subPageLight_ids[of h m p sels "Suc i"] by blast
    from e have "light_id i = light_id k" by simp
    then have "string_of_index i = string_of_index k" by (rule light_id_eq)
    moreover have "i \<in> {i..<i + length (sel # sels)}" "k \<in> {i..<i + length (sel # sels)}"
      using k by auto
    ultimately have "i = k" by (rule inj_onD[OF Cons.prems])
    then show False using k by simp
  qed
  then show ?case using d by simp
qed

lemma inj_string_of_index_small: "inj_on string_of_index {0..<10}"
proof (rule inj_onI)
  fix x y assume "x \<in> {0..<10::nat}" "y \<in> {0..<10::nat}" "string_of_index x = string_of_index y"
  then have "''0123456789'' ! x = ''0123456789'' ! y" "x < length ''0123456789''" "y < length ''0123456789''"
    by (simp_all add: string_of_index_small)
  moreover have "distinct ''0123456789''" by simp
  ultimately show "x = y" by (simp add: nth_eq_iff_index_eq)
qed

lemma distinct_common_ids: "distinct (map trigger_id (common_bindings h m p))"
proof -
  have "inj_on string_of_index {0..<0 + length subPageLightSections}"
    by (rule inj_on_subset[OF inj_string_of_index_small]) (simp add: subPageLightSections_def)
  then have d: "distinct (map trigger_id (subPageLight_bindings h m p subPageLightSections 0))"
    by (rule distinct_subPageLight)
  have "Some ''theme-cabinet'' \<notin> set (map trigger_id (subPageLight_bindings h m p subPageLightSections 0))"
    "Some ''theme-audience'' \<notin> set (map trigger_id (subPageLight_bindings h m p subPageLightSections 0))"
    "Some ''theme-cta'' \<notin> set (map trigger_id (subPageLight_bindings h m p subPageLightSections 0))"
    "Some ''theme-contact-section'' \<notin> set (map trigger_id (subPageLight_bindings h m p subPageLightSections 0))"
    "Some ''theme-faq-section'' \<notin> set (map trigger_id (subPageLight_bindings h m p subPageLightSections 0))"
    by (rule not_light_fresh, simp)+
  then show ?thesis using d
    by (simp add: common_bindings_def theme_cabinet_def theme_audience_def theme_cta_def
          theme_contact_section_def theme_faq_section_def)
qed

lemma tail_ids_fresh:
  "Some ''theme-subpage-cta'' \<notin> set (map trigger_id (common_bindings h m p))"
  "Some ''theme-subpage-footer'' \<notin> set (map trigger_id (common_bindings h m p))"
proof -
  have "Some ''theme-subpage-cta'' \<notin> set (map trigger_id (subPageLight_bindings h m p subPageLightSections 0))"
    "Some ''theme-subpage-footer'' \<notin> set (map trigger_id (subPageLight_bindings h m p subPageLightSections 0))"
    by (rule not_light_fresh, simp)+
  then show "Some ''theme-subpage-cta'' \<notin> set (map trigger_id (common_bindings h m p))"
    "Some ''theme-subpage-footer'' \<notin> set (map trigger_id (common_bindings h m p))"
    by (simp_all add: common_bindings_def theme_cabinet_def theme_audience_def theme_cta_def
          theme_contact_section_def theme_faq_section_def)
qed

lemma distinct_ids_legacy: "distinct (map trigger_id (bindings_legacy h m p))"
  using distinct_common_ids[of h m p] tail_ids_fresh[of h m p]
  by (simp add: bindings_legacy_def theme_subpage_cta_def)

lemma distinct_ids_current: "distinct (map trigger_id (bindings_current h m p))"
  using distinct_common_ids[of h m p] tail_ids_fresh[of h m p]
  by (simp add: bindings_current_def theme_subpage_footer_def)

subsection \<open>Installing twice\<close>

lemma twice_legacy:
  "\<exists>w1 w2. initThemeTriggers_legacy (Some h) m w = Some w1 \<and>
     initThemeTriggers_legacy (Some h) m w1 = Some w2 \<and>
     triggers w2 = triggers w1 \<and> data_theme w2 = data_theme w1 \<and>
     filter is_theme (triggers w2) = bindings_legacy (Some h) m (the_page w) \<and>
     frames w1 = frames w @ [Rebaseline (Some h) m] \<and>
     frames w2 = frames w @ [Rebaseline (Some h) m, Rebaseline (Some h) m] \<and>
     the_page w1 = the_page w \<and> the_page w2 = the_page w"
proof -
  let ?B = "bindings_legacy (Some h) m (the_page w)"
  let ?K = "filter (\<lambda>t. \<not> is_theme t) (triggers w)"
  let ?W = "theme_writes h m (initialTheme (the_page w)) @ all_sync_writes w ?B"
  obtain w1 where w1: "initThemeTriggers_legacy (Some h) m w = Some w1"
    and p1: "the_page w1 = the_page w" "fires_on_create w1 = fires_on_create w"
    and fr1: "frames w1 = frames w @ [Rebaseline (Some h) m]"
    and t1: "triggers w1 = ?K @ ?B"
    and d1: "data_theme w1 = apply_writes ?W (data_theme w)"
    using legacy_fields[of h m w] by blast
  obtain w2 where w2: "initThemeTriggers_legacy (Some h) m w1 = Some w2"
    and p2: "the_page w2 = the_page w1"
    and fr2: "frames w2 = frames w1 @ [Rebaseline (Some h) m]"
    and t2: "triggers w2 = filter (\<lambda>t. \<not> is_theme t) (triggers w1)
                @ bindings_legacy (Some h) m (the_page w1)"
    and d2: "data_theme w2 =
       apply_writes (theme_writes h m (initialTheme (the_page w1))
                     @ all_sync_writes w1 (bindings_legacy (Some h) m (the_page w1)))
         (data_theme w1)"
    using legacy_fields[of h m w1] by blast
  have th: "list_all is_theme ?B" by (rule is_theme_bindings_legacy)
  have k: "filter (\<lambda>t. \<not> is_theme t) (triggers w1) = ?K"
    unfolding t1 using th by (rule filter_theme_kept(2))
  have t: "triggers w2 = triggers w1" using t2 k p1 t1 by simp
  have "all_sync_writes w1 ?B = all_sync_writes w ?B"
    using p1 by (rule all_sync_writes_cong)
  then have "data_theme w2 = apply_writes ?W (apply_writes ?W (data_theme w))"
    using d2 d1 p1 by simp
  then have d: "data_theme w2 = data_theme w1"
    using d1 by (simp add: apply_writes_idem)
  have f: "filter is_theme (triggers w2) = ?B"
    unfolding t t1 using th by (rule filter_theme_kept(1))
  show ?thesis using w1 w2 t d f fr1 fr2 p1 p2 by simp
qed

lemma twice_current:
  "\<exists>w1 w2. initThemeTriggers (Some h) m w = Some w1 \<and>
     initThemeTriggers (Some h) m w1 = Some w2 \<and>
     triggers w2 = triggers w1 \<and> data_theme w2 = data_theme w1 \<and>
     filter is_theme (triggers w2) = bindings_current (Some h) m (the_page w)"
proof -
  let ?B = "bindings_current (Some h) m (the_page w)"
  let ?K = "filter (\<lambda>t. \<not> is_theme t) (triggers w)"
  let ?W = "all_sync_writes w ?B"
  obtain w1 where w1: "initThemeTriggers (Some h) m w = Some w1"
    and p1: "the_page w1 = the_page w" "fires_on_create w1 = fires_on_create w"
    and t1: "triggers w1 = ?K @ ?B"
    and d1: "data_theme w1 = apply_writes ?W (data_theme w)"
    using current_fields[of h m w] by blast
  obtain w2 where w2: "initThemeTriggers (Some h) m w1 = Some w2"
    and t2: "triggers w2 = filter (\<lambda>t. \<not> is_theme t) (triggers w1)
                @ bindings_current (Some h) m (the_page w1)"
    and d2: "data_theme w2 =
       apply_writes (all_sync_writes w1 (bindings_current (Some h) m (the_page w1)))
         (data_theme w1)"
    using current_fields[of h m w1] by blast
  have th: "list_all is_theme ?B" by (rule is_theme_bindings_current)
  have k: "filter (\<lambda>t. \<not> is_theme t) (triggers w1) = ?K"
    unfolding t1 using th by (rule filter_theme_kept(2))
  have t: "triggers w2 = triggers w1" using t2 k p1 t1 by simp
  have "all_sync_writes w1 ?B = all_sync_writes w ?B"
    using p1 by (rule all_sync_writes_cong)
  then have "data_theme w2 = apply_writes ?W (apply_writes ?W (data_theme w))"
    using d2 d1 p1 by simp
  then have d: "data_theme w2 = data_theme w1"
    using d1 by (simp add: apply_writes_idem)
  have f: "filter is_theme (triggers w2) = ?B"
    unfolding t t1 using th by (rule filter_theme_kept(1))
  show ?thesis using w1 w2 t d f by simp
qed


subsection \<open>Removing a section\<close>

lemma without_fields [simp]:
  "the_page (without sel w) = removed sel (the_page w)"
  "triggers (without sel w) = triggers w"
  by (simp_all add: without_def)

lemma removed_query [simp]:
  "s \<noteq> sel \<Longrightarrow> querySelector (removed sel p) s = querySelector p s"
  "querySelector (removed sel p) sel = None"
  by (simp_all add: removed_def)

lemma trigger_light [simp]: "trigger (theme_subpage_light h m s i) = s"
  by (simp add: theme_subpage_light_def)

lemma subPageLight_removed:
  "t \<in> set (subPageLight_bindings h m p sels i) \<Longrightarrow> trigger t \<noteq> sel \<Longrightarrow>
   t \<in> set (subPageLight_bindings h m (removed sel p) sels i)"
proof (induction sels arbitrary: i)
  case Nil
  then show ?case by simp
next
  case (Cons s sels)
  show ?case
  proof (cases "t \<in> set (subPageLight_bindings h m p sels (Suc i))")
    case True
    then show ?thesis using Cons.IH[of "Suc i"] Cons.prems(2) by simp
  next
    case False
    then have e: "t = theme_subpage_light h m s i" "querySelector p s \<noteq> None"
      using Cons.prems(1) by (auto split: if_splits)
    then have "s \<noteq> sel" using Cons.prems(2) by simp
    then show ?thesis using e by simp
  qed
qed

lemma subPageLight_present:
  "s \<in> set sels \<Longrightarrow> querySelector p s \<noteq> None \<Longrightarrow>
   \<exists>t\<in>set (subPageLight_bindings h m p sels i). is_theme t \<and> trigger t = s"
proof (induction sels arbitrary: i)
  case Nil
  then show ?case by simp
next
  case (Cons a sels)
  show ?case
  proof (cases "s = a")
    case True
    then have "theme_subpage_light h m s i \<in> set (subPageLight_bindings h m p (a # sels) i)"
      using Cons.prems(2) by simp
    then show ?thesis using is_theme_bindings(6) trigger_light by blast
  next
    case False
    then have "s \<in> set sels" using Cons.prems(1) by simp
    then have "\<exists>t\<in>set (subPageLight_bindings h m p sels (Suc i)). is_theme t \<and> trigger t = s"
      using Cons.prems(2) by (rule Cons.IH)
    then show ?thesis by auto
  qed
qed

lemma common_removed:
  "t \<in> set (common_bindings h m p) \<Longrightarrow> trigger t \<noteq> sel \<Longrightarrow>
   t \<in> set (common_bindings h m (removed sel p))"
  using subPageLight_removed[of t h m p subPageLightSections 0 sel]
  by (auto simp add: common_bindings_def)

lemma legacy_removed:
  assumes "t \<in> set (bindings_legacy h m p)" "trigger t \<noteq> sel"
    and "trigger_id t = Some ''theme-subpage-cta'' \<longrightarrow> sel \<noteq> ''.footer-wrapper''"
  shows "t \<in> set (bindings_legacy h m (removed sel p))"
proof (cases "t \<in> set (common_bindings h m p)")
  case True
  then show ?thesis using assms(2) common_removed by (simp add: bindings_legacy_def)
next
  case False
  then have e: "t = theme_subpage_cta h m" "querySelector p ''.footer-wrapper'' \<noteq> None"
    "querySelector p ''.final-cta'' \<noteq> None"
    using assms(1) by (auto simp add: bindings_legacy_def split: if_splits)
  then have "sel \<noteq> ''.footer-wrapper''" "sel \<noteq> ''.final-cta''"
    using assms(2,3) by (auto simp add: theme_subpage_cta_def)
  then show ?thesis using e by (simp add: bindings_legacy_def)
qed

lemma current_removed:
  assumes "t \<in> set (bindings_current h m p)" "trigger t \<noteq> sel"
  shows "t \<in> set (bindings_current h m (removed sel p))"
proof (cases "t \<in> set (common_bindings h m p)")
  case True
  then show ?thesis using assms(2) common_removed by (simp add: bindings_current_def)
next
  case False
  then have e: "t = theme_subpage_footer h m" "querySelector p ''.footer-wrapper'' \<noteq> None"
    using assms(1) by (auto simp add: bindings_current_def split: if_splits)
  then have "sel \<noteq> ''.footer-wrapper''"
    using assms(2) by (auto simp add: theme_subpage_footer_def)
  then show ?thesis using e by (simp add: bindings_current_def)
qed

lemma common_present:
  assumes "s \<in> set bound_sections_legacy" "querySelector p s \<noteq> None"
  shows "\<exists>t\<in>set (common_bindings h m p). is_theme t \<and> trigger t = s"
proof (cases "s \<in> set subPageLightSections")
  case True
  then have "\<exists>t\<in>set (subPageLight_bindings h m p subPageLightSections 0). is_theme t \<and> trigger t = s"
    using assms(2) by (rule subPageLight_present)
  then show ?thesis by (auto simp add: common_bindings_def)
next
  case False
  then have "s = ''.cabinet-preview'' \<or> s = ''.target-audience'' \<or> s = ''.final-cta''
    \<or> s = ''.section-contact'' \<or> s = ''.section-faq''"
    using assms(1) by (simp add: bound_sections_legacy_def)
  then show ?thesis
  proof (elim disjE)
    assume 1: "s = ''.cabinet-preview''"
    have "theme_cabinet h m \<in> set (common_bindings h m p)" by (simp add: common_bindings_def)
    moreover have "trigger (theme_cabinet h m) = s" using 1 by (simp add: theme_cabinet_def)
    ultimately show ?thesis using is_theme_bindings(1) by blast
  next
    assume 2: "s = ''.target-audience''"
    have "theme_audience h m \<in> set (common_bindings h m p)" by (simp add: common_bindings_def)
    moreover have "trigger (theme_audience h m) = s" using 2 by (simp add: theme_audience_def)
    ultimately show ?thesis using is_theme_bindings(2) by blast
  next
    assume 3: "s = ''.final-cta''"
    have "theme_cta h m \<in> set (common_bindings h m p)" by (simp add: common_bindings_def)
    moreover have "trigger (theme_cta h m) = s" using 3 by (simp add: theme_cta_def)
    ultimately show ?thesis using is_theme_bindings(3) by blast
  next
    assume 4: "s = ''.section-contact''"
    have "theme_contact_section h m \<in> set (common_bindings h m p)"
      by (simp add: common_bindings_def)
    moreover have "trigger (theme_contact_section h m) = s"
      using 4 by (simp add: theme_contact_section_def)
    ultimately show ?thesis using is_theme_bindings(4) by blast
  next
    assume 5: "s = ''.section-faq''"
    have "theme_faq_section h m \<in> set (common_bindings h m p)" by (simp add: common_bindings_def)
    moreover have "trigger (theme_faq_section h m) = s" using 5 by (simp add: theme_faq_section_def)
    ultimately show ?thesis using is_theme_bindings(5) by blast
  qed
qed

lemma current_present:
  assumes "s \<in> set bound_sections_current" "querySelector p s \<noteq> None"
  shows "\<exists>t\<in>set (bindings_current h m p). is_theme t \<and> trigger t = s"
proof (cases "s \<in> set bound_sections_legacy")
  case True
  then have "\<exists>t\<in>set (common_bindings h m p). is_theme t \<and> trigger t = s"
    using assms(2) by (rule common_present)
  then show ?thesis by (auto simp add: bindings_current_def)
next
  case False
  then have s: "s = ''.footer-wrapper''" using assms(1) by (simp add: bound_sections_current_def)
  then have "theme_subpage_footer h m \<in> set (bindings_current h m p)"
    using assms(2) by (simp add: bindings_current_def)
  moreover have "trigger (theme_subpage_footer h m) = s" using s by (simp add: theme_subpage_footer_def)
  ultimately show ?thesis using is_theme_bindings(8) by blast
qed

lemma legacy_present:
  assumes "s \<in> set bound_sections_legacy" "querySelector p s \<noteq> None"
  shows "\<exists>t\<in>set (bindings_legacy h m p). is_theme t \<and> trigger t = s"
  using common_present[OF assms, of h m] by (auto simp add: bindings_legacy_def)

lemma removed_footer_bindings_legacy:
  "bindings_legacy (Some 0) (Some 8) (removed ''.footer-wrapper'' subpage) =
     [theme_cabinet (Some 0) (Some 8), theme_audience (Some 0) (Some 8),
      theme_cta (Some 0) (Some 8), theme_contact_section (Some 0) (Some 8),
      theme_faq_section (Some 0) (Some 8),
      theme_subpage_light (Some 0) (Some 8) ''.section-content'' 3]"
  by (simp add: bindings_legacy_def common_bindings_def subPageLightSections_def subpage_def
        subpage_selectors_def removed_def eval_nat_numeral)

lemma bindings_after_legacy:
  "bindings_after (initThemeTriggers_legacy (Some h) m w) =
     map (\<lambda>t. (trigger_id t, trigger t)) (bindings_legacy (Some h) m (the_page w))"
proof -
  obtain w1 where w1: "initThemeTriggers_legacy (Some h) m w = Some w1"
    and t1: "triggers w1 = filter (\<lambda>t. \<not> is_theme t) (triggers w)
               @ bindings_legacy (Some h) m (the_page w)"
    using legacy_triggers[of h m w] by blast
  have "filter is_theme (triggers w1) = bindings_legacy (Some h) m (the_page w)"
    unfolding t1 by (rule filter_theme_kept) (rule is_theme_bindings_legacy)
  then show ?thesis by (simp add: bindings_after_def w1)
qed


subsection \<open>Only the two theme values are written\<close>

lemma themed_refl [simp]: "themed w w"
  by (simp add: themed_def)

lemma themed_trans: "themed w w1 \<Longrightarrow> themed w1 w2 \<Longrightarrow> themed w w2"
  unfolding themed_def by metis

lemma good_writes_append [simp]: "good_writes (xs @ ys) = (good_writes xs \<and> good_writes ys)"
  by (simp add: good_writes_def)

lemma good_writes_Nil [simp]: "good_writes []"
  by (simp add: good_writes_def)

lemma good_writes_theme [simp]:
  "good_writes (theme_writes h m th) = (th = ''light'' \<or> th = ''dark'')"
  by (cases m) (simp_all add: good_writes_def theme_writes_def)

lemma apply_good_writes:
  assumes "good_writes ws"
  shows "apply_writes ws d n = d n \<or> light_or_dark (apply_writes ws d n)"
proof (cases "map_of (rev ws) n")
  case None
  then show ?thesis by (simp add: apply_writes_last)
next
  case (Some v)
  then have "(n, v) \<in> set ws" using map_of_SomeD[of "rev ws" n v] by simp
  then have "v = ''light'' \<or> v = ''dark''"
    using assms by (auto simp add: good_writes_def list_all_iff)
  then show ?thesis using Some by (simp add: apply_writes_last light_or_dark_def)
qed

lemma apply_good_writes_hit:
  assumes "good_writes ws" "n \<in> fst ` set ws"
  shows "light_or_dark (apply_writes ws d n)"
proof -
  have "n \<in> fst ` set (rev ws)" using assms(2) by simp
  then obtain v where v: "map_of (rev ws) n = Some v"
    by (metis map_of_eq_None_iff not_Some_eq)
  then have "(n, v) \<in> set ws" using map_of_SomeD[of "rev ws" n v] by simp
  then have "v = ''light'' \<or> v = ''dark''"
    using assms(1) by (auto simp add: good_writes_def list_all_iff)
  then show ?thesis using v by (simp add: apply_writes_last light_or_dark_def)
qed

lemma themed_written: "good_writes ws \<Longrightarrow> themed w (written ws w)"
  by (simp add: themed_def apply_good_writes)

lemma settled_written [simp]: "settled (written ws w) = settled w"
  by (simp add: settled_def)

lemma tame_callback_writes:
  "tame_callback c \<Longrightarrow> has_header c \<and> good_writes (callback_writes c)"
  by (induction c rule: tame_callback.induct) auto

lemma tame_callback_of: "tame v \<Longrightarrow> tame_callback (callback_of e v)"
  by (cases e) (simp_all add: tame_def)

lemma tame_callable: "tame v \<Longrightarrow> callable v"
  by (simp add: tame_def callable_def tame_callback_writes)

lemma tame_event_writes: "tame v \<Longrightarrow> good_writes (event_writes v es)"
  by (induction es) (simp_all add: event_writes_def tame_callback_writes tame_callback_of)

lemma initialTheme_cases: "initialTheme p = ''light'' \<or> initialTheme p = ''dark''"
  by (simp add: initialTheme_def)

lemma tame_bindings [simp]:
  "tame (theme_cabinet (Some h) m)" "tame (theme_audience (Some h) m)"
  "tame (theme_cta (Some h) m)" "tame (theme_contact_section (Some h) m)"
  "tame (theme_faq_section (Some h) m)" "tame (theme_subpage_light (Some h) m sel i)"
  "tame (theme_subpage_cta (Some h) m)" "tame (theme_subpage_footer (Some h) m)"
  by (simp_all add: tame_def theme_cabinet_def theme_audience_def theme_cta_def
        theme_contact_section_def theme_faq_section_def theme_subpage_light_def
        theme_subpage_cta_def theme_subpage_footer_def)

lemma tame_subPageLight: "list_all tame (subPageLight_bindings (Some h) m p sels i)"
  by (induction sels arbitrary: i) simp_all

lemma tame_bindings_legacy: "list_all tame (bindings_legacy (Some h) m p)"
  by (simp add: bindings_legacy_def common_bindings_def tame_subPageLight)

lemma tame_bindings_current: "list_all tame (bindings_current (Some h) m p)"
  by (simp add: bindings_current_def common_bindings_def tame_subPageLight)

lemma good_all_sync_writes: "list_all tame vs \<Longrightarrow> good_writes (all_sync_writes w vs)"
  by (induction vs) (simp_all add: all_sync_writes_def sync_writes_def tame_event_writes)

lemma settled_installable: "settled w \<Longrightarrow> installable w"
  by (simp add: settled_def installable_def list_all_iff)

lemma legacy_settles:
  assumes "installable w"
  shows "\<exists>w1. initThemeTriggers_legacy (Some h) m w = Some w1 \<and> settled w1 \<and> themed w w1 \<and>
           light_or_dark (data_theme w1 h)"
proof -
  let ?B = "bindings_legacy (Some h) m (the_page w)"
  let ?W = "theme_writes h m (initialTheme (the_page w)) @ all_sync_writes w ?B"
  obtain w1 where w1: "initThemeTriggers_legacy (Some h) m w = Some w1"
    and fr1: "frames w1 = frames w @ [Rebaseline (Some h) m]"
    and t1: "triggers w1 = filter (\<lambda>t. \<not> is_theme t) (triggers w) @ ?B"
    and d1: "data_theme w1 = apply_writes ?W (data_theme w)"
    using legacy_fields[of h m w] by blast
  have g: "good_writes ?W"
    using initialTheme_cases[of "the_page w"] good_all_sync_writes[OF tame_bindings_legacy]
    by simp
  have "h \<in> fst ` set ?W" by (simp add: theme_writes_def)
  then have "light_or_dark (data_theme w1 h)"
    unfolding d1 using g by (intro apply_good_writes_hit)
  moreover have "themed w w1"
    unfolding themed_def d1 using g by (simp add: apply_good_writes)
  moreover have "settled w1"
    using assms by (simp add: settled_def installable_def t1 fr1 tame_bindings_legacy)
  ultimately show ?thesis using w1 by blast
qed

lemma current_settles:
  assumes "installable w"
  shows "\<exists>w1. initThemeTriggers (Some h) m w = Some w1 \<and> settled w1 \<and> themed w w1"
proof -
  let ?B = "bindings_current (Some h) m (the_page w)"
  let ?W = "all_sync_writes w ?B"
  obtain w1 where w1: "initThemeTriggers (Some h) m w = Some w1"
    and fr1: "frames w1 = frames w"
    and t1: "triggers w1 = filter (\<lambda>t. \<not> is_theme t) (triggers w) @ ?B"
    and d1: "data_theme w1 = apply_writes ?W (data_theme w)"
    using current_fields[of h m w] by blast
  have g: "good_writes ?W"
    using good_all_sync_writes[OF tame_bindings_current] by simp
  have "themed w w1"
    unfolding themed_def d1 using g by (simp add: apply_good_writes)
  moreover have "settled w1"
    using assms by (simp add: settled_def installable_def t1 fr1 tame_bindings_current)
  ultimately show ?thesis using w1 by blast
qed

lemma run_task_settled:
  assumes "tame_task f" "settled w"
  shows "\<exists>w1. run_task f w = Some w1 \<and> settled w1 \<and> themed w w1"
proof (cases f)
  case (InitThemeTriggers s ho m)
  then obtain h where h: "ho = Some h" using assms(1) by auto
  show ?thesis
  proof (cases s)
    case Legacy
    then show ?thesis
      using legacy_settles[OF settled_installable[OF assms(2)], of h m] InitThemeTriggers h by auto
  next
    case Current
    then show ?thesis
      using current_settles[OF settled_installable[OF assms(2)], of h m] InitThemeTriggers h by auto
  qed
next
  case (LoadHandler s ho m)
  then show ?thesis using assms(2) by (simp add: setTimeout_def settled_def themed_def)
next
  case (Rebaseline ho m)
  then obtain h where h: "ho = Some h" using assms(1) by auto
  have "good_writes (theme_writes h m (initialTheme (the_page w)))"
    using initialTheme_cases[of "the_page w"] by simp
  then show ?thesis
    using Rebaseline h assms(2) by (simp add: rebaseline_written themed_written)
qed

lemma run_tasks_settled:
  "list_all tame_task fs \<Longrightarrow> settled w \<Longrightarrow>
   \<exists>w1. run_tasks fs w = Some w1 \<and> settled w1 \<and> themed w w1"
proof (induction fs arbitrary: w)
  case Nil
  then show ?case by simp
next
  case (Cons f fs)
  then obtain w1 where w1: "run_task f w = Some w1" "settled w1" "themed w w1"
    using run_task_settled[of f w] by auto
  obtain w2 where w2: "run_tasks fs w1 = Some w2" "settled w2" "themed w1 w2"
    using Cons.IH[of w1] Cons.prems(1) w1(2) by auto
  have "themed w w2" using w1(3) w2(3) by (rule themed_trans)
  then show ?case using w1 w2 by simp
qed

lemma run_step_settled:
  assumes "settled w"
  shows "\<exists>w1. run_step s w = Some w1 \<and> settled w1 \<and> themed w w1"
proof (cases s)
  case (PageChange p)
  then show ?thesis using assms by (simp add: settled_def themed_def)
next
  case (Scroll i e)
  show ?thesis
  proof (cases "i < length (triggers w)")
    case True
    then have "tame (triggers w ! i)" using assms by (simp add: settled_def list_all_length)
    then have "has_header (callback_of e (triggers w ! i))"
      "good_writes (callback_writes (callback_of e (triggers w ! i)))"
      using tame_callback_writes[OF tame_callback_of] by blast+
    then show ?thesis using Scroll True assms
      by (simp add: call_callback_written themed_written)
  next
    case False
    then show ?thesis using Scroll assms by simp
  qed
next
  case Frame
  have s0: "settled (w\<lparr>frames := []\<rparr>)" using assms by (simp add: settled_def)
  have "list_all tame_task (frames w)" using assms by (simp add: settled_def)
  then obtain w1 where "run_tasks (frames w) (w\<lparr>frames := []\<rparr>) = Some w1" "settled w1"
    "themed (w\<lparr>frames := []\<rparr>) w1"
    using run_tasks_settled[OF _ s0] by blast
  then show ?thesis using Frame by (simp add: themed_def)
qed

lemma run_steps_settled:
  "settled w \<Longrightarrow> \<exists>w1. run_steps ss w = Some w1 \<and> settled w1 \<and> themed w w1"
proof (induction ss arbitrary: w)
  case Nil
  then show ?case by simp
next
  case (Cons s ss)
  then obtain w1 where w1: "run_step s w = Some w1" "settled w1" "themed w w1"
    using run_step_settled[of w s] by auto
  obtain w2 where w2: "run_steps ss w1 = Some w2" "settled w2" "themed w1 w2"
    using Cons.IH[of w1] w1(2) by auto
  have "themed w w2" using w1(3) w2(3) by (rule themed_trans)
  then show ?case using w1 w2 by simp
qed

lemma tame_parallax: "tame parallax_trigger"
  by (simp add: tame_def parallax_trigger_def)





subsection \<open>From the entry point to installation\<close>

text \<open>
  With the header found, \<^verbatim>\<open>initHeaderThemeLogic\<close> only schedules: the timer task runs
  the script's \<^verbatim>\<open>initThemeTriggers\<close> with the header and mega menu it looked up.
\<close>

lemma initHeaderThemeLogic_schedules:
  assumes "querySelector (the_page w) ''#main-header'' = Some h"
  shows "initHeaderThemeLogic s w =
     Some (if readyState (the_page w) = ''complete''
           then setTimeout (InitThemeTriggers s (Some h) (getElementById (the_page w) ''mega-menu''))
                  300 (registerPlugin w)
           else addEventListener ''load''
                  (LoadHandler s (Some h) (getElementById (the_page w) ''mega-menu''))
                  (registerPlugin w))"
  using assms by (simp add: initHeaderThemeLogic_def Let_def registerPlugin_def)

lemma run_scheduled_tasks:
  "run_task (LoadHandler s header megaMenu) w
     = Some (setTimeout (InitThemeTriggers s header megaMenu) 300 w)"
  "run_task (InitThemeTriggers Legacy header megaMenu) w = initThemeTriggers_legacy header megaMenu w"
  "run_task (InitThemeTriggers Current header megaMenu) w = initThemeTriggers header megaMenu w"
  by simp_all

subsection \<open>A library that enters absent sections\<close>

lemma fixed_binding_enters:
  assumes "sel \<in> set fixed_sections"
  shows "\<exists>v e. v \<in> set (common_bindings (Some h) m p) \<and> trigger v = sel \<and>
               onEnter v = Some (SetTheme (Some h) m e)"
proof -
  have "sel = ''.cabinet-preview'' \<or> sel = ''.target-audience'' \<or> sel = ''.final-cta''
    \<or> sel = ''.section-contact'' \<or> sel = ''.section-faq''"
    using assms by (simp add: fixed_sections_def)
  then show ?thesis
  proof (elim disjE)
    assume "sel = ''.cabinet-preview''"
    then have "theme_cabinet (Some h) m \<in> set (common_bindings (Some h) m p) \<and>
      trigger (theme_cabinet (Some h) m) = sel \<and>
      onEnter (theme_cabinet (Some h) m) = Some (SetTheme (Some h) m ''light'')"
      by (simp add: common_bindings_def) (simp add: theme_cabinet_def)
    then show ?thesis by blast
  next
    assume "sel = ''.target-audience''"
    then have "theme_audience (Some h) m \<in> set (common_bindings (Some h) m p) \<and>
      trigger (theme_audience (Some h) m) = sel \<and>
      onEnter (theme_audience (Some h) m) = Some (SetTheme (Some h) m ''dark'')"
      by (simp add: common_bindings_def) (simp add: theme_audience_def)
    then show ?thesis by blast
  next
    assume "sel = ''.final-cta''"
    then have "theme_cta (Some h) m \<in> set (common_bindings (Some h) m p) \<and>
      trigger (theme_cta (Some h) m) = sel \<and>
      onEnter (theme_cta (Some h) m) = Some (SetTheme (Some h) m ''light'')"
      by (simp add: common_bindings_def) (simp add: theme_cta_def)
    then show ?thesis by blast
  next
    assume "sel = ''.section-contact''"
    then have "theme_contact_section (Some h) m \<in> set (common_bindings (Some h) m p) \<and>
      trigger (theme_contact_section (Some h) m) = sel \<and>
      onEnter (theme_contact_section (Some h) m) = Some (SetTheme (Some h) m ''light'')"
      by (simp add: common_bindings_def) (simp add: theme_contact_section_def)
    then show ?thesis by blast
  next
    assume "sel = ''.section-faq''"
    then have "theme_faq_section (Some h) m \<in> set (common_bindings (Some h) m p) \<and>
      trigger (theme_faq_section (Some h) m) = sel \<and>
      onEnter (theme_faq_section (Some h) m) = Some (SetTheme (Some h) m ''light'')"
      by (simp add: common_bindings_def) (simp add: theme_faq_section_def)
    then show ?thesis by blast
  qed
qed

lemma sync_writes_hit:
  assumes "v \<in> set vs" "Enter \<in> set (fires_on_create w (the_page w) v)"
    and "onEnter v = Some (SetTheme (Some h) m e)"
  shows "h \<in> fst ` set (all_sync_writes w vs)"
proof -
  have "(h, e) \<in> set (callback_writes (callback_of Enter v))"
    using assms(3) by (simp add: theme_writes_def)
  then have "\<exists>x\<in>set (fires_on_create w (the_page w) v).
               (h, e) \<in> set (callback_writes (callback_of x v))"
    using assms(2) by blast
  then have "(h, e) \<in> set (sync_writes w v)"
    by (simp add: sync_writes_def event_writes_def)
  then have "(h, e) \<in> set (all_sync_writes w vs)"
    using assms(1) by (auto simp add: all_sync_writes_def)
  then show ?thesis by force
qed

lemma current_settles_themed:
  assumes "installable w" "\<forall>v. enters_absent w v"
    and "\<exists>sel\<in>set fixed_sections. querySelector (the_page w) sel = None"
  shows "\<exists>w1. initThemeTriggers (Some h) m w = Some w1 \<and> settled w1 \<and>
           light_or_dark (data_theme w1 h)"
proof -
  let ?B = "bindings_current (Some h) m (the_page w)"
  obtain w1 where w1: "initThemeTriggers (Some h) m w = Some w1" "settled w1"
    using current_settles[OF assms(1), of h m] by blast
  have d1: "data_theme w1 = apply_writes (all_sync_writes w ?B) (data_theme w)"
    using current_fields[of h m w] w1(1) by auto
  obtain sel where sel: "sel \<in> set fixed_sections" "querySelector (the_page w) sel = None"
    using assms(3) by blast
  obtain v e where v: "v \<in> set (common_bindings (Some h) m (the_page w))" "trigger v = sel"
    "onEnter v = Some (SetTheme (Some h) m e)"
    using fixed_binding_enters[OF sel(1), of h m "the_page w"] by blast
  have "Enter \<in> set (fires_on_create w (the_page w) v)"
    using assms(2) sel(2) v(2) by (simp add: enters_absent_def)
  moreover have "v \<in> set ?B" using v(1) by (simp add: bindings_current_def)
  ultimately have "h \<in> fst ` set (all_sync_writes w ?B)"
    using v(3) by (intro sync_writes_hit)
  moreover have "good_writes (all_sync_writes w ?B)"
    using good_all_sync_writes[OF tame_bindings_current] by simp
  ultimately have "light_or_dark (data_theme w1 h)"
    unfolding d1 by (intro apply_good_writes_hit)
  then show ?thesis using w1 by blast
qed

subsection \<open>Crossing a boundary\<close>










lemma enter_theme_cases: "enter_theme sel = ''light'' \<or> enter_theme sel = ''dark''"
  by (simp add: enter_theme_def)



















section \<open>The claims\<close>

text \<open>
  Claim C1, as stated, fails by the rounding of double arithmetic. On a page whose
  content section has \<^verbatim>\<open>rect.top\<close> 100 while \<^verbatim>\<open>window.scrollY\<close> is the double nearest
  to 0.2, the scroll offset is not below the exact absolute top minus 100 (the two are
  equal), yet the sum rounds up, the difference is exact, and \<^verbatim>\<open>calculateInitialTheme\<close>
  returns dark.
\<close>

theorem C1_exact_threshold_counterexample:
  "hasHeroSection fraction_page \<and>
   exactTops fraction_page = [100 + 3602879701896397 / 18014398509481984] \<and>
   \<not> scrollY fraction_page < Min (set (exactTops fraction_page)) - 100 \<and>
   calculateInitialTheme fraction_page = Some ''dark''"
proof -
  have h: "hasHeroSection fraction_page"
    by (simp add: hasHeroSection_def fraction_page_def subpage_def subpage_selectors_def)
  have e: "exactTops fraction_page = [100 + 3602879701896397 / 18014398509481984]"
    by (simp add: exactTops_def contentSections_def fraction_page_def subpage_def
          subpage_selectors_def fraction_tops_def List.map_filter_simps)
  have t: "tops_of fraction_page contentSections
             = [Finite (7050948166601933 / 70368744177664)]"
    by (simp add: tops_of_def contentSections_def fraction_page_def subpage_def
          subpage_selectors_def fraction_tops_def List.map_filter_simps plus_number_def
          to_double_examples)
  have s: "scrollY fraction_page = 3602879701896397 / 18014398509481984"
    by (simp add: fraction_page_def)
  have "initialTheme fraction_page = ''dark''"
    using h by (simp add: initialTheme_def t s keep_min_def to_double_examples)
  then show ?thesis using h e s by (simp add: calculateInitialTheme_total)
qed

text \<open>
  Claim C1, amended. With a hero-type section and at least one candidate content section
  present, \<^verbatim>\<open>calculateInitialTheme\<close> returns dark exactly when the scroll offset is
  strictly below the least of the absolute tops of the present candidate sections minus
  100, the sums \<^verbatim>\<open>rect.top + window.scrollY\<close> and the difference being the rounded double
  results the script computes; otherwise light. Without a hero-type section it returns
  light.
\<close>

theorem C1_initial_theme_threshold:
  "(hasHeroSection p \<and> candidateTops p \<noteq> [] \<longrightarrow>
      (\<exists>m. m \<in> set (candidateTops p) \<and>
           list_all (\<lambda>t. \<not> less_number t m) (candidateTops p) \<and>
           calculateInitialTheme p =
             Some (if less_number (Finite (scrollY p)) (minus_number m 100)
                   then ''dark'' else ''light'')))
   \<and> (\<not> hasHeroSection p \<longrightarrow> calculateInitialTheme p = Some ''light'')"
proof (intro conjI impI)
  assume a: "hasHeroSection p \<and> candidateTops p \<noteq> []"
  let ?m = "fold keep_min (tops_of p contentSections) Infinity"
  have "?m \<in> set (candidateTops p)" "list_all (\<lambda>t. \<not> less_number t ?m) (candidateTops p)"
    using fold_keep_min_Infinity[of "tops_of p contentSections"] a
    by (simp_all add: candidateTops_tops_of list_all_iff)
  moreover have "calculateInitialTheme p =
      Some (if less_number (Finite (scrollY p)) (minus_number ?m 100) then ''dark'' else ''light'')"
    using a by (simp add: calculateInitialTheme_total initialTheme_def)
  ultimately show "\<exists>m. m \<in> set (candidateTops p) \<and>
           list_all (\<lambda>t. \<not> less_number t m) (candidateTops p) \<and>
           calculateInitialTheme p =
             Some (if less_number (Finite (scrollY p)) (minus_number m 100)
                   then ''dark'' else ''light'')"
    by blast
next
  assume "\<not> hasHeroSection p"
  then show "calculateInitialTheme p = Some ''light''"
    by (simp add: calculateInitialTheme_total initialTheme_def)
qed

theorem C1_initial_theme_threshold_witness:
  "hasHeroSection subpage \<and> candidateTops subpage = [Finite 500] \<and>
   minus_number (Finite 500) 100 = Finite 400 \<and> scrollY subpage = 250 \<and>
   calculateInitialTheme subpage = Some ''dark'' \<and>
   hasHeroSection subpage_at_400 \<and> candidateTops subpage_at_400 = [Finite 500] \<and>
   scrollY subpage_at_400 = 400 \<and>
   calculateInitialTheme subpage_at_400 = Some ''light'' \<and>
   \<not> hasHeroSection bare_page \<and> calculateInitialTheme bare_page = Some ''light''"
proof -
  have a: "hasHeroSection subpage" "hasHeroSection subpage_at_400"
    by (simp_all add: hasHeroSection_def subpage_def subpage_at_400_def subpage_selectors_def)
  have b: "candidateTops subpage = [Finite 500]" "candidateTops subpage_at_400 = [Finite 500]"
    by (simp_all add: candidateTops_tops_of subpage_tops_of)
  have c: "\<not> hasHeroSection bare_page"
    by (simp add: hasHeroSection_def bare_page_def subpage_def bare_selectors_def)
  have s: "scrollY subpage = 250" "scrollY subpage_at_400 = 400"
    by (simp_all add: subpage_def subpage_at_400_def)
  have m: "minus_number (Finite 500) 100 = Finite 400"
    by (simp add: to_double_examples)
  show ?thesis
    using C1_initial_theme_threshold [of subpage] C1_initial_theme_threshold [of subpage_at_400]
      C1_initial_theme_threshold [of bare_page] a b c s m
    by simp
qed

text \<open>
  Claim C10. With a hero-type section present and none of the seven candidate content
  sections, \<^verbatim>\<open>calculateInitialTheme\<close> returns dark at every scroll offset: the running
  minimum stays \<^verbatim>\<open>Infinity\<close>.
\<close>

theorem C10_hero_without_content_is_dark:
  assumes "hasHeroSection p"
    and "\<forall>sel\<in>set contentSections. querySelector p sel = None"
  shows "firstContentTop_forEach (p\<lparr>scrollY := s\<rparr>) contentSections Infinity = Some Infinity
         \<and> calculateInitialTheme (p\<lparr>scrollY := s\<rparr>) = Some ''dark''"
proof -
  have "tops_of (p\<lparr>scrollY := s\<rparr>) contentSections = []"
    using assms(2) by (intro tops_of_absent) simp
  moreover have "hasHeroSection (p\<lparr>scrollY := s\<rparr>)"
    using assms(1) by (simp add: hasHeroSection_def)
  ultimately show ?thesis
    by (simp add: calculateInitialTheme_total initialTheme_def forEach_fold)
qed

theorem C10_hero_without_content_is_dark_witness:
  "hasHeroSection hero_only_page \<and>
   filter (\<lambda>sel. querySelector hero_only_page sel \<noteq> None) contentSections = [] \<and>
   calculateInitialTheme (hero_only_page\<lparr>scrollY := 100000\<rparr>) = Some ''dark''"
proof -
  have a: "hasHeroSection hero_only_page"
    by (simp add: hasHeroSection_def hero_only_page_def subpage_def hero_only_selectors_def)
  have b: "\<forall>sel\<in>set contentSections. querySelector hero_only_page sel = None"
    by (simp add: contentSections_def hero_only_page_def subpage_def hero_only_selectors_def)
  show ?thesis
    using C10_hero_without_content_is_dark [OF a b, of 100000] a b
    by (simp add: filter_empty_conv)
qed

text \<open>
  Claim C7. The teardown loop removes exactly the triggers whose id starts with
  \<^verbatim>\<open>theme-\<close>. Every trigger either script creates has such an id. The triggers the
  animations module creates (when \<^verbatim>\<open>initSectionEntrance\<close> returns at all: with its default
  child selector it raises before creating one) have no id: the optional call on the
  missing id evaluates to \<^verbatim>\<open>undefined\<close> without an exception, and teardown keeps them.
\<close>

theorem C7_teardown_removes_exactly_theme_triggers:
  "triggers (kill_theme_triggers w) = filter (\<lambda>t. \<not> is_theme t) (triggers w)
   \<and> (\<exists>w1 new. initThemeTriggers_legacy (Some h) m w = Some w1 \<and>
         triggers w1 = triggers (kill_theme_triggers w) @ new \<and> list_all is_theme new)
   \<and> (\<exists>w1 new. initThemeTriggers (Some h) m w = Some w1 \<and>
         triggers w1 = triggers (kill_theme_triggers w) @ new \<and> list_all is_theme new)
   \<and> (\<exists>w1 new. initParallax parallaxEnd w = Some w1 \<and> triggers w1 = triggers w @ new \<and>
         list_all (\<lambda>t. trigger_id t = None) new \<and>
         triggers (kill_theme_triggers w1) = triggers (kill_theme_triggers w) @ new)
   \<and> (\<forall>w1. initSectionEntrance sectionSelector childSelector start_opt w = Some w1 \<longrightarrow>
         (\<exists>new. triggers w1 = triggers w @ new \<and> list_all (\<lambda>t. trigger_id t = None) new \<and>
            triggers (kill_theme_triggers w1) = triggers (kill_theme_triggers w) @ new))
   \<and> (trigger_id t = None \<longrightarrow>
         optional_startsWith (trigger_id t) ''theme-'' = None \<and> \<not> is_theme t)"
proof (intro conjI)
  show "triggers (kill_theme_triggers w) = filter (\<lambda>t. \<not> is_theme t) (triggers w)" by simp
  show "\<exists>w1 new. initThemeTriggers_legacy (Some h) m w = Some w1 \<and>
         triggers w1 = triggers (kill_theme_triggers w) @ new \<and> list_all is_theme new"
    using legacy_triggers[of h m w] is_theme_bindings_legacy by auto
  show "\<exists>w1 new. initThemeTriggers (Some h) m w = Some w1 \<and>
         triggers w1 = triggers (kill_theme_triggers w) @ new \<and> list_all is_theme new"
    using current_triggers[of h m w] is_theme_bindings_current by auto
  show "\<exists>w1 new. initParallax parallaxEnd w = Some w1 \<and> triggers w1 = triggers w @ new \<and>
         list_all (\<lambda>t. trigger_id t = None) new \<and>
         triggers (kill_theme_triggers w1) = triggers (kill_theme_triggers w) @ new"
  proof (cases "querySelector (the_page w) ''.hero-container'' \<noteq> None \<and>
                querySelector (the_page w) ''.hero-bg'' \<noteq> None")
    case True
    then show ?thesis
      by (simp add: initParallax_def Let_def create_no_callbacks is_theme_def)
  next
    case False
    then have "initParallax parallaxEnd w = Some w" by (auto simp add: initParallax_def Let_def)
    then show ?thesis by simp
  qed
  show "\<forall>w1. initSectionEntrance sectionSelector childSelector start_opt w = Some w1 \<longrightarrow>
         (\<exists>new. triggers w1 = triggers w @ new \<and> list_all (\<lambda>t. trigger_id t = None) new \<and>
            triggers (kill_theme_triggers w1) = triggers (kill_theme_triggers w) @ new)"
  proof (intro allI impI)
    fix w1
    assume r: "initSectionEntrance sectionSelector childSelector start_opt w = Some w1"
    let ?v = "\<lparr>trigger_id = None, trigger = sectionSelector,
                start = Some (case start_opt of None \<Rightarrow> ''top 80%'' | Some v \<Rightarrow> v),
                trigger_end = None, refreshPriority = None, scrub = None,
                toggleActions = Some ''play none none reverse'', onEnter = None,
                onLeaveBack = None, onLeave = None, onEnterBack = None\<rparr>"
    have "ScrollTrigger_create ?v w = Some (registered ?v w)"
      by (simp add: create_no_callbacks)
    then have "initSectionEntrance sectionSelector childSelector start_opt w = None \<or>
          initSectionEntrance sectionSelector childSelector start_opt w = Some w \<or>
          initSectionEntrance sectionSelector childSelector start_opt w = Some (registered ?v w)"
      by (simp add: initSectionEntrance_def Let_def split: option.splits)
    then have "w1 = w \<or> w1 = registered ?v w" using r by auto
    moreover have "trigger_id ?v = None" by simp
    ultimately have "w1 = w \<or> (\<exists>v. trigger_id v = None \<and> w1 = registered v w)"
      by blast
    then show "\<exists>new. triggers w1 = triggers w @ new \<and> list_all (\<lambda>t. trigger_id t = None) new \<and>
            triggers (kill_theme_triggers w1) = triggers (kill_theme_triggers w) @ new"
    proof
      assume "w1 = w"
      then show ?thesis by simp
    next
      assume "\<exists>v. trigger_id v = None \<and> w1 = registered v w"
      then obtain v where "trigger_id v = None" "w1 = registered v w" by blast
      then have "triggers w1 = triggers w @ [v] \<and> list_all (\<lambda>t. trigger_id t = None) [v] \<and>
            triggers (kill_theme_triggers w1) = triggers (kill_theme_triggers w) @ [v]"
        by (simp add: is_theme_def)
      then show ?thesis by blast
    qed
  qed
  show "trigger_id t = None \<longrightarrow>
          optional_startsWith (trigger_id t) ''theme-'' = None \<and> \<not> is_theme t"
    by (simp add: optional_startsWith_def is_theme_def)
qed

theorem C7_teardown_removes_exactly_theme_triggers_witness:
  "trigger_id parallax_trigger = None \<and>
   optional_startsWith (trigger_id parallax_trigger) ''theme-'' = None \<and>
   \<not> is_theme parallax_trigger \<and>
   triggers (kill_theme_triggers subpage_world) = [parallax_trigger] \<and>
   initSectionEntrance ''.section-content'' None None subpage_world = None \<and>
   (\<exists>w1. initSectionEntrance ''.section-content'' (Some ''.card'') None subpage_world = Some w1 \<and>
      triggers w1 = [parallax_trigger, entrance_trigger] \<and>
      triggers (kill_theme_triggers w1) = [parallax_trigger, entrance_trigger])"
proof -
  have a: "trigger_id parallax_trigger = None" by (simp add: parallax_trigger_def)
  have b: "triggers subpage_world = [parallax_trigger]" by (simp add: subpage_world_def)
  have c: "initSectionEntrance ''.section-content'' (Some ''.card'') None subpage_world
           = Some (registered entrance_trigger subpage_world)"
    by (simp add: initSectionEntrance_def not_a_selector_def subpage_world_def subpage_def
          subpage_selectors_def subpage_children_def create_no_callbacks entrance_trigger_def)
  have d: "initSectionEntrance ''.section-content'' None None subpage_world = None"
    by (simp add: initSectionEntrance_def not_a_selector_def subpage_world_def subpage_def
          subpage_selectors_def)
  show ?thesis
    using C7_teardown_removes_exactly_theme_triggers
      [where w = subpage_world and t = parallax_trigger and h = 0 and m = "Some 8"
         and sectionSelector = "''.section-content''" and childSelector = "Some ''.card''"
         and start_opt = None and parallaxEnd = "''bottom top''"] a b c d
    by auto
qed

text \<open>
  Claim C9. When \<^verbatim>\<open>#main-header\<close> is not found, \<^verbatim>\<open>initHeaderThemeLogic\<close> of either
  script returns normally after registering the plugin: no attribute is written, the
  trigger registry is unchanged and nothing is scheduled.
\<close>

theorem C9_missing_header_is_noop:
  assumes "querySelector (the_page w) ''#main-header'' = None"
  shows "\<exists>w1. initHeaderThemeLogic s w = Some w1 \<and> data_theme w1 = data_theme w \<and>
           triggers w1 = triggers w \<and> frames w1 = frames w \<and> timeouts w1 = timeouts w \<and>
           listeners w1 = listeners w \<and> the_page w1 = the_page w \<and>
           trace w1 = trace w @ [RegisterPlugin]"
  using assms by (simp add: initHeaderThemeLogic_def Let_def registerPlugin_def)

theorem C9_missing_header_is_noop_witness:
  "querySelector (the_page headless_world) ''#main-header'' = None \<and>
   (\<exists>w1. initHeaderThemeLogic Legacy headless_world = Some w1 \<and>
      data_theme w1 = no_theme \<and> triggers w1 = [parallax_trigger] \<and> frames w1 = [] \<and>
      timeouts w1 = [] \<and> listeners w1 = []) \<and>
   (\<exists>w1. initHeaderThemeLogic Current headless_world = Some w1 \<and>
      data_theme w1 = no_theme \<and> triggers w1 = [parallax_trigger] \<and> frames w1 = [] \<and>
      timeouts w1 = [] \<and> listeners w1 = [])"
proof -
  have a: "querySelector (the_page headless_world) ''#main-header'' = None"
    by (simp add: headless_world_def no_selectors_def)
  show ?thesis
    using C9_missing_header_is_noop [OF a, of Legacy] C9_missing_header_is_noop [OF a, of Current] a
    by (auto simp add: headless_world_def subpage_world_def)
qed

text \<open>
  Claim C4. In the legacy script \<^verbatim>\<open>initThemeTriggers\<close> makes its calls in this order:
  it kills the registered triggers whose id starts with \<^verbatim>\<open>theme-\<close>, refreshes the
  library, writes the theme the resolver computes, creates the page's bindings (each
  followed by whatever its synchronous callbacks write), and last asks for an animation
  frame. The frame callback is queued, not run; when the frame comes it writes the theme
  the resolver computes for the page as it is then, whatever the callbacks wrote before.
\<close>

theorem C4_legacy_installing_order:
  "\<exists>w1 th. initThemeTriggers_legacy (Some h) m w = Some w1 \<and>
     calculateInitialTheme (the_page w) = Some th \<and>
     trace w1 =
       trace w @ map (\<lambda>t. Kill (trigger_id t)) (filter is_theme (triggers w)) @ [Refresh]
       @ write_calls (theme_writes h m th)
       @ create_calls w (bindings_legacy (Some h) m (the_page w)) @ [RequestAnimationFrame] \<and>
     frames w1 = frames w @ [Rebaseline (Some h) m] \<and>
     (frames w = [] \<longrightarrow>
        (\<exists>w2 th2. run_steps [PageChange p, Frame] w1 = Some w2 \<and>
           calculateInitialTheme p = Some th2 \<and>
           trace w2 = trace w1 @ write_calls (theme_writes h m th2) \<and>
           data_theme w2 h = Some th2 \<and> frames w2 = []))"
proof -
  obtain w1 where w1: "initThemeTriggers_legacy (Some h) m w = Some w1"
    and fr: "frames w1 = frames w @ [Rebaseline (Some h) m]"
    and tr: "trace w1 =
       trace w @ map (\<lambda>t. Kill (trigger_id t)) (filter is_theme (triggers w)) @ [Refresh]
       @ write_calls (theme_writes h m (initialTheme (the_page w)))
       @ create_calls w (bindings_legacy (Some h) m (the_page w)) @ [RequestAnimationFrame]"
    using legacy_fields[of h m w] by blast
  have "frames w = [] \<longrightarrow>
        (\<exists>w2. run_steps [PageChange p, Frame] w1 = Some w2 \<and>
           trace w2 = trace w1 @ write_calls (theme_writes h m (initialTheme p)) \<and>
           data_theme w2 h = Some (initialTheme p) \<and> frames w2 = [])"
    using fr by (simp add: rebaseline_written theme_writes_header)
  then show ?thesis using w1 fr tr by (simp add: calculateInitialTheme_total)
qed


theorem C4_legacy_installing_order_witness:
  "frames subpage_world = [] \<and>
   (\<exists>w1 w2. initThemeTriggers_legacy (Some 0) (Some 8) subpage_world = Some w1 \<and>
      data_theme w1 0 = Some ''light'' \<and>
      frames w1 = [Rebaseline (Some 0) (Some 8)] \<and>
      run_steps [PageChange subpage, Frame] w1 = Some w2 \<and>
      calculateInitialTheme subpage = Some ''dark'' \<and>
      data_theme w2 0 = Some ''dark'')"
proof -
  have a: "frames subpage_world = []" "the_page subpage_world = subpage"
    "data_theme subpage_world = no_theme"
    by (simp_all add: subpage_world_def)
  obtain w1 where w1: "initThemeTriggers_legacy (Some 0) (Some 8) subpage_world = Some w1"
    and d: "data_theme w1 =
       apply_writes (theme_writes 0 (Some 8) (initialTheme subpage)
                     @ all_sync_writes subpage_world (bindings_legacy (Some 0) (Some 8) subpage))
         no_theme"
    using legacy_fields[of 0 "Some 8" subpage_world] a by auto
  have "data_theme w1 0 = Some ''light''"
    by (simp add: d eager_sync_writes subpage_initialTheme theme_writes_def apply_writes_def)
  then show ?thesis
    using C4_legacy_installing_order [of 0 "Some 8" subpage_world subpage] w1 a
    by (auto simp add: calculateInitialTheme_total subpage_initialTheme)
qed

text \<open>
  Claim C5, as stated, fails: the two scripts do not create the same bindings up to one
  leave-back rule. On the example sub-page the legacy script ends with
  \<^verbatim>\<open>theme-subpage-cta\<close> on \<^verbatim>\<open>.final-cta\<close>, \<^verbatim>\<open>headerTheme.js\<close> with
  \<^verbatim>\<open>theme-subpage-footer\<close> on \<^verbatim>\<open>.footer-wrapper\<close>.
\<close>

theorem C5_entry_points_counterexample:
  "bindings_after (initThemeTriggers_legacy (Some 0) (Some 8) quiet_world) =
     [(Some ''theme-cabinet'', ''.cabinet-preview''), (Some ''theme-audience'', ''.target-audience''),
      (Some ''theme-cta'', ''.final-cta''), (Some ''theme-contact-section'', ''.section-contact''),
      (Some ''theme-faq-section'', ''.section-faq''),
      (Some ''theme-subpage-light-3'', ''.section-content''),
      (Some ''theme-subpage-cta'', ''.final-cta'')] \<and>
   bindings_after (initThemeTriggers (Some 0) (Some 8) quiet_world) =
     [(Some ''theme-cabinet'', ''.cabinet-preview''), (Some ''theme-audience'', ''.target-audience''),
      (Some ''theme-cta'', ''.final-cta''), (Some ''theme-contact-section'', ''.section-contact''),
      (Some ''theme-faq-section'', ''.section-faq''),
      (Some ''theme-subpage-light-3'', ''.section-content''),
      (Some ''theme-subpage-footer'', ''.footer-wrapper'')]"
proof -
  have p: "the_page quiet_world = subpage"
    by (simp add: quiet_world_def subpage_world_def)
  obtain w1 where w1: "initThemeTriggers_legacy (Some 0) (Some 8) quiet_world = Some w1"
    and t1: "triggers w1 = filter (\<lambda>t. \<not> is_theme t) (triggers quiet_world)
               @ bindings_legacy (Some 0) (Some 8) subpage"
    using legacy_triggers[of 0 "Some 8" quiet_world] p by auto
  obtain w2 where w2: "initThemeTriggers (Some 0) (Some 8) quiet_world = Some w2"
    and t2: "triggers w2 = filter (\<lambda>t. \<not> is_theme t) (triggers quiet_world)
               @ bindings_current (Some 0) (Some 8) subpage"
    using current_triggers[of 0 "Some 8" quiet_world] p by auto
  have f1: "filter is_theme (triggers w1) = bindings_legacy (Some 0) (Some 8) subpage"
    unfolding t1 by (rule filter_theme_kept) (rule is_theme_bindings_legacy)
  have f2: "filter is_theme (triggers w2) = bindings_current (Some 0) (Some 8) subpage"
    unfolding t2 by (rule filter_theme_kept) (rule is_theme_bindings_current)
  have s3: "string_of_index 3 = ''3''"
    by (simp add: string_of_index_small eval_nat_numeral)
  show ?thesis
    by (simp add: bindings_after_def w1 w2 f1 f2 subpage_bindings_legacy subpage_bindings_current
          theme_cabinet_def theme_audience_def theme_cta_def theme_contact_section_def
          theme_faq_section_def theme_subpage_light_def theme_subpage_cta_def
          theme_subpage_footer_def s3)
qed


text \<open>
  Claim C5, amended. Both scripts keep the registered triggers outside the theme
  namespace and create the same common bindings (the five fixed ones and one light
  binding per present sub-page section), identical in id, selector, boundaries and
  rules. They differ in the last binding: the legacy script adds
  \<^verbatim>\<open>theme-subpage-cta\<close> when both \<^verbatim>\<open>.footer-wrapper\<close> and \<^verbatim>\<open>.final-cta\<close> are present,
  \<^verbatim>\<open>headerTheme.js\<close> adds \<^verbatim>\<open>theme-subpage-footer\<close> when \<^verbatim>\<open>.footer-wrapper\<close> is present.
  And only the legacy script writes the resolver's theme before creating the bindings
  and queues the frame callback that writes it again.
\<close>

theorem C5_entry_points_difference:
  "\<exists>w1 w2 th.
     initThemeTriggers_legacy (Some h) m w = Some w1 \<and> initThemeTriggers (Some h) m w = Some w2 \<and>
     calculateInitialTheme (the_page w) = Some th \<and>
     triggers w1 =
       filter (\<lambda>t. \<not> is_theme t) (triggers w) @ common_bindings (Some h) m (the_page w)
       @ (if querySelector (the_page w) ''.footer-wrapper'' \<noteq> None \<and>
             querySelector (the_page w) ''.final-cta'' \<noteq> None
          then [theme_subpage_cta (Some h) m] else []) \<and>
     triggers w2 =
       filter (\<lambda>t. \<not> is_theme t) (triggers w) @ common_bindings (Some h) m (the_page w)
       @ (if querySelector (the_page w) ''.footer-wrapper'' \<noteq> None
          then [theme_subpage_footer (Some h) m] else []) \<and>
     frames w1 = frames w @ [Rebaseline (Some h) m] \<and> frames w2 = frames w \<and>
     data_theme w1 =
       apply_writes (theme_writes h m th @ all_sync_writes w (filter is_theme (triggers w1)))
         (data_theme w) \<and>
     data_theme w2 = apply_writes (all_sync_writes w (filter is_theme (triggers w2))) (data_theme w)"
proof -
  obtain w1 where w1: "initThemeTriggers_legacy (Some h) m w = Some w1"
    and fr1: "frames w1 = frames w @ [Rebaseline (Some h) m]"
    and t1: "triggers w1 =
       filter (\<lambda>t. \<not> is_theme t) (triggers w) @ bindings_legacy (Some h) m (the_page w)"
    and d1: "data_theme w1 =
       apply_writes (theme_writes h m (initialTheme (the_page w))
                     @ all_sync_writes w (bindings_legacy (Some h) m (the_page w)))
         (data_theme w)"
    using legacy_fields[of h m w] by blast
  obtain w2 where w2: "initThemeTriggers (Some h) m w = Some w2"
    and fr2: "frames w2 = frames w"
    and t2: "triggers w2 =
       filter (\<lambda>t. \<not> is_theme t) (triggers w) @ bindings_current (Some h) m (the_page w)"
    and d2: "data_theme w2 =
       apply_writes (all_sync_writes w (bindings_current (Some h) m (the_page w))) (data_theme w)"
    using current_fields[of h m w] by blast
  have f1: "filter is_theme (triggers w1) = bindings_legacy (Some h) m (the_page w)"
    unfolding t1 by (rule filter_theme_kept) (rule is_theme_bindings_legacy)
  have f2: "filter is_theme (triggers w2) = bindings_current (Some h) m (the_page w)"
    unfolding t2 by (rule filter_theme_kept) (rule is_theme_bindings_current)
  have d1': "data_theme w1 =
       apply_writes (theme_writes h m (initialTheme (the_page w))
                     @ all_sync_writes w (filter is_theme (triggers w1))) (data_theme w)"
    using d1 f1 by simp
  have d2': "data_theme w2 =
       apply_writes (all_sync_writes w (filter is_theme (triggers w2))) (data_theme w)"
    using d2 f2 by simp
  have t1': "triggers w1 =
       filter (\<lambda>t. \<not> is_theme t) (triggers w) @ common_bindings (Some h) m (the_page w)
       @ (if querySelector (the_page w) ''.footer-wrapper'' \<noteq> None \<and>
             querySelector (the_page w) ''.final-cta'' \<noteq> None
          then [theme_subpage_cta (Some h) m] else [])"
    using t1 by (simp add: bindings_legacy_def)
  have t2': "triggers w2 =
       filter (\<lambda>t. \<not> is_theme t) (triggers w) @ common_bindings (Some h) m (the_page w)
       @ (if querySelector (the_page w) ''.footer-wrapper'' \<noteq> None
          then [theme_subpage_footer (Some h) m] else [])"
    using t2 by (simp add: bindings_current_def)
  show ?thesis
    using w1 w2 fr1 fr2 t1' t2' d1' d2' calculateInitialTheme_total[of "the_page w"] by blast
qed

theorem C5_entry_points_difference_witness:
  "\<exists>w1 w2. initThemeTriggers_legacy (Some 0) (Some 8) quiet_world = Some w1 \<and>
     initThemeTriggers (Some 0) (Some 8) quiet_world = Some w2 \<and>
     frames w1 = [Rebaseline (Some 0) (Some 8)] \<and> frames w2 = []"
  using C5_entry_points_difference [of 0 "Some 8" quiet_world]
  by (auto simp add: quiet_world_def subpage_world_def)

text \<open>
  Claim C6. Running \<^verbatim>\<open>initThemeTriggers\<close> a second time right after the first leaves
  the same registry and the same \<^verbatim>\<open>data-theme\<close> attributes as running it once: the
  second run kills every binding the first one created and creates the same bindings
  again, and the ids of the theme bindings are pairwise distinct. This holds for both
  scripts; in the legacy script the queued frame callbacks (one after one run, two after
  two) also leave the same attributes, the resolver's theme on the header.
\<close>

theorem C6_installation_idempotent:
  "(\<exists>w1 w2. initThemeTriggers_legacy (Some h) m w = Some w1 \<and>
      initThemeTriggers_legacy (Some h) m w1 = Some w2 \<and>
      triggers w2 = triggers w1 \<and> data_theme w2 = data_theme w1 \<and>
      distinct (map trigger_id (filter is_theme (triggers w2))) \<and>
      frames w1 = frames w @ [Rebaseline (Some h) m] \<and>
      frames w2 = frames w @ [Rebaseline (Some h) m, Rebaseline (Some h) m] \<and>
      (\<exists>w3 w4 th. run_tasks [Rebaseline (Some h) m] w1 = Some w3 \<and>
         run_tasks [Rebaseline (Some h) m, Rebaseline (Some h) m] w2 = Some w4 \<and>
         triggers w4 = triggers w3 \<and> data_theme w4 = data_theme w3 \<and>
         calculateInitialTheme (the_page w) = Some th \<and> data_theme w3 h = Some th))
   \<and> (\<exists>w1 w2. initThemeTriggers (Some h) m w = Some w1 \<and>
      initThemeTriggers (Some h) m w1 = Some w2 \<and>
      triggers w2 = triggers w1 \<and> data_theme w2 = data_theme w1 \<and>
      distinct (map trigger_id (filter is_theme (triggers w2))))"
proof
  obtain w1 w2 where a: "initThemeTriggers_legacy (Some h) m w = Some w1"
     "initThemeTriggers_legacy (Some h) m w1 = Some w2"
     "triggers w2 = triggers w1" "data_theme w2 = data_theme w1"
     "filter is_theme (triggers w2) = bindings_legacy (Some h) m (the_page w)"
     "frames w1 = frames w @ [Rebaseline (Some h) m]"
     "frames w2 = frames w @ [Rebaseline (Some h) m, Rebaseline (Some h) m]"
     "the_page w1 = the_page w" "the_page w2 = the_page w"
    using twice_legacy[of h m w] by blast
  let ?tw = "theme_writes h m (initialTheme (the_page w))"
  have r1: "run_tasks [Rebaseline (Some h) m] w1 = Some (written ?tw w1)"
    by (simp add: rebaseline_written a)
  have r2: "run_tasks [Rebaseline (Some h) m, Rebaseline (Some h) m] w2
            = Some (written ?tw (written ?tw w2))"
    by (simp add: rebaseline_written a)
  have "distinct (map trigger_id (filter is_theme (triggers w2)))"
    unfolding a(5) by (rule distinct_ids_legacy)
  moreover have "triggers (written ?tw (written ?tw w2)) = triggers (written ?tw w1)"
    by (simp add: a)
  moreover have "data_theme (written ?tw (written ?tw w2)) = data_theme (written ?tw w1)"
    by (simp add: a apply_writes_idem)
  moreover have "calculateInitialTheme (the_page w) = Some (initialTheme (the_page w)) \<and>
                 data_theme (written ?tw w1) h = Some (initialTheme (the_page w))"
    by (simp add: calculateInitialTheme_total theme_writes_header)
  ultimately show "\<exists>w1 w2. initThemeTriggers_legacy (Some h) m w = Some w1 \<and>
      initThemeTriggers_legacy (Some h) m w1 = Some w2 \<and>
      triggers w2 = triggers w1 \<and> data_theme w2 = data_theme w1 \<and>
      distinct (map trigger_id (filter is_theme (triggers w2))) \<and>
      frames w1 = frames w @ [Rebaseline (Some h) m] \<and>
      frames w2 = frames w @ [Rebaseline (Some h) m, Rebaseline (Some h) m] \<and>
      (\<exists>w3 w4 th. run_tasks [Rebaseline (Some h) m] w1 = Some w3 \<and>
         run_tasks [Rebaseline (Some h) m, Rebaseline (Some h) m] w2 = Some w4 \<and>
         triggers w4 = triggers w3 \<and> data_theme w4 = data_theme w3 \<and>
         calculateInitialTheme (the_page w) = Some th \<and> data_theme w3 h = Some th)"
    using a r1 r2 by blast
next
  obtain w1 w2 where a: "initThemeTriggers (Some h) m w = Some w1"
     "initThemeTriggers (Some h) m w1 = Some w2"
     "triggers w2 = triggers w1" "data_theme w2 = data_theme w1"
     "filter is_theme (triggers w2) = bindings_current (Some h) m (the_page w)"
    using twice_current[of h m w] by blast
  have "distinct (map trigger_id (filter is_theme (triggers w2)))"
    unfolding a(5) by (rule distinct_ids_current)
  then show "\<exists>w1 w2. initThemeTriggers (Some h) m w = Some w1 \<and>
      initThemeTriggers (Some h) m w1 = Some w2 \<and>
      triggers w2 = triggers w1 \<and> data_theme w2 = data_theme w1 \<and>
      distinct (map trigger_id (filter is_theme (triggers w2)))"
    using a by blast
qed

theorem C6_installation_idempotent_witness:
  "\<exists>w1 w2. initThemeTriggers_legacy (Some 0) (Some 8) subpage_world = Some w1 \<and>
      initThemeTriggers_legacy (Some 0) (Some 8) w1 = Some w2 \<and>
      triggers w2 = triggers w1 \<and> data_theme w2 = data_theme w1 \<and>
      frames w1 = [Rebaseline (Some 0) (Some 8)] \<and>
      frames w2 = [Rebaseline (Some 0) (Some 8), Rebaseline (Some 0) (Some 8)]"
  using C6_installation_idempotent [of 0 "Some 8" subpage_world]
  by (auto simp add: subpage_world_def)

text \<open>
  Claim C8, as stated, fails in the legacy script: absence of one section can suppress a
  binding of another section that is present. On the example sub-page,
  \<^verbatim>\<open>theme-subpage-cta\<close> is bound to \<^verbatim>\<open>.final-cta\<close>; with \<^verbatim>\<open>.footer-wrapper\<close> removed
  and \<^verbatim>\<open>.final-cta\<close> still present it is no longer created, because its creation is
  guarded by both sections.
\<close>

theorem C8_absent_section_counterexample:
  "querySelector (the_page (without ''.footer-wrapper'' quiet_world)) ''.final-cta'' = Some 4 \<and>
   (Some ''theme-subpage-cta'', ''.final-cta'')
     \<in> set (bindings_after (initThemeTriggers_legacy (Some 0) (Some 8) quiet_world)) \<and>
   (Some ''theme-subpage-cta'', ''.final-cta'')
     \<notin> set (bindings_after
               (initThemeTriggers_legacy (Some 0) (Some 8) (without ''.footer-wrapper'' quiet_world)))"
proof -
  have p: "the_page quiet_world = subpage" by (simp add: quiet_world_def subpage_world_def)
  have s3: "string_of_index 3 = ''3''"
    by (simp add: string_of_index_small eval_nat_numeral)
  have "querySelector (removed ''.footer-wrapper'' subpage) ''.final-cta'' = Some 4"
    by (simp add: subpage_def subpage_selectors_def)
  then show ?thesis
    by (simp add: bindings_after_legacy p removed_footer_bindings_legacy subpage_bindings_legacy
          theme_cabinet_def theme_audience_def theme_cta_def theme_contact_section_def
          theme_faq_section_def theme_subpage_light_def theme_subpage_cta_def s3)
qed


text \<open>
  Claim C8, amended. Whatever section is removed, \<^verbatim>\<open>initThemeTriggers\<close> of either script
  returns without an exception; every trigger registered on the full page whose selector
  is not the removed one is registered on the reduced page as well, except that the
  legacy \<^verbatim>\<open>theme-subpage-cta\<close> binding also goes when \<^verbatim>\<open>.footer-wrapper\<close> is the removed
  section; and every bound section that remains present still has a theme binding.
\<close>

theorem C8_absent_section_robust:
  "\<exists>w1 w2 v1 v2.
     initThemeTriggers_legacy (Some h) m w = Some w1 \<and>
     initThemeTriggers_legacy (Some h) m (without sel w) = Some v1 \<and>
     initThemeTriggers (Some h) m w = Some w2 \<and>
     initThemeTriggers (Some h) m (without sel w) = Some v2 \<and>
     (\<forall>t\<in>set (triggers w1).
        trigger t \<noteq> sel \<and> (trigger_id t = Some ''theme-subpage-cta'' \<longrightarrow> sel \<noteq> ''.footer-wrapper'')
        \<longrightarrow> t \<in> set (triggers v1)) \<and>
     (\<forall>t\<in>set (triggers w2). trigger t \<noteq> sel \<longrightarrow> t \<in> set (triggers v2)) \<and>
     (\<forall>s\<in>set bound_sections_legacy. s \<noteq> sel \<and> querySelector (the_page w) s \<noteq> None
        \<longrightarrow> (\<exists>t\<in>set (triggers v1). is_theme t \<and> trigger t = s)) \<and>
     (\<forall>s\<in>set bound_sections_current. s \<noteq> sel \<and> querySelector (the_page w) s \<noteq> None
        \<longrightarrow> (\<exists>t\<in>set (triggers v2). is_theme t \<and> trigger t = s))"
proof -
  let ?K = "filter (\<lambda>t. \<not> is_theme t) (triggers w)"
  let ?p = "the_page w"
  obtain w1 where w1: "initThemeTriggers_legacy (Some h) m w = Some w1"
    and tw1: "triggers w1 = ?K @ bindings_legacy (Some h) m ?p"
    using legacy_triggers[of h m w] by blast
  obtain v1 where v1: "initThemeTriggers_legacy (Some h) m (without sel w) = Some v1"
    and tv1: "triggers v1 = ?K @ bindings_legacy (Some h) m (removed sel ?p)"
    using legacy_triggers[of h m "without sel w"] by auto
  obtain w2 where w2: "initThemeTriggers (Some h) m w = Some w2"
    and tw2: "triggers w2 = ?K @ bindings_current (Some h) m ?p"
    using current_triggers[of h m w] by blast
  obtain v2 where v2: "initThemeTriggers (Some h) m (without sel w) = Some v2"
    and tv2: "triggers v2 = ?K @ bindings_current (Some h) m (removed sel ?p)"
    using current_triggers[of h m "without sel w"] by auto
  have a: "\<forall>t\<in>set (triggers w1).
        trigger t \<noteq> sel \<and> (trigger_id t = Some ''theme-subpage-cta'' \<longrightarrow> sel \<noteq> ''.footer-wrapper'')
        \<longrightarrow> t \<in> set (triggers v1)"
    unfolding tw1 tv1 using legacy_removed[of _ "Some h" m ?p sel] by auto
  have b: "\<forall>t\<in>set (triggers w2). trigger t \<noteq> sel \<longrightarrow> t \<in> set (triggers v2)"
    unfolding tw2 tv2 using current_removed[of _ "Some h" m ?p sel] by auto
  have c: "\<forall>s\<in>set bound_sections_legacy. s \<noteq> sel \<and> querySelector ?p s \<noteq> None
        \<longrightarrow> (\<exists>t\<in>set (triggers v1). is_theme t \<and> trigger t = s)"
  proof (intro ballI impI)
    fix s assume s: "s \<in> set bound_sections_legacy" "s \<noteq> sel \<and> querySelector ?p s \<noteq> None"
    then have "querySelector (removed sel ?p) s \<noteq> None" by simp
    then have "\<exists>t\<in>set (bindings_legacy (Some h) m (removed sel ?p)). is_theme t \<and> trigger t = s"
      using s(1) by (intro legacy_present)
    then show "\<exists>t\<in>set (triggers v1). is_theme t \<and> trigger t = s"
      unfolding tv1 by auto
  qed
  have d: "\<forall>s\<in>set bound_sections_current. s \<noteq> sel \<and> querySelector ?p s \<noteq> None
        \<longrightarrow> (\<exists>t\<in>set (triggers v2). is_theme t \<and> trigger t = s)"
  proof (intro ballI impI)
    fix s assume s: "s \<in> set bound_sections_current" "s \<noteq> sel \<and> querySelector ?p s \<noteq> None"
    then have "querySelector (removed sel ?p) s \<noteq> None" by simp
    then have "\<exists>t\<in>set (bindings_current (Some h) m (removed sel ?p)). is_theme t \<and> trigger t = s"
      using s(1) by (intro current_present)
    then show "\<exists>t\<in>set (triggers v2). is_theme t \<and> trigger t = s"
      unfolding tv2 by auto
  qed
  show ?thesis using w1 v1 w2 v2 a b c d by blast
qed


theorem C8_absent_section_robust_witness:
  "\<exists>w1 v1. initThemeTriggers_legacy (Some 0) (Some 8) quiet_world = Some w1 \<and>
     initThemeTriggers_legacy (Some 0) (Some 8) (without ''.section-content'' quiet_world) = Some v1 \<and>
     theme_subpage_cta (Some 0) (Some 8) \<in> set (triggers w1) \<and>
     trigger (theme_subpage_cta (Some 0) (Some 8)) = ''.final-cta'' \<and>
     theme_subpage_cta (Some 0) (Some 8) \<in> set (triggers v1) \<and>
     ''.final-cta'' \<in> set bound_sections_legacy \<and>
     querySelector (the_page quiet_world) ''.final-cta'' = Some 4"
proof -
  have p: "the_page quiet_world = subpage" by (simp add: quiet_world_def subpage_world_def)
  obtain w1 where w1: "initThemeTriggers_legacy (Some 0) (Some 8) quiet_world = Some w1"
    and t1: "triggers w1 = filter (\<lambda>t. \<not> is_theme t) (triggers quiet_world)
               @ bindings_legacy (Some 0) (Some 8) subpage"
    using legacy_triggers[of 0 "Some 8" quiet_world] p by auto
  have a: "theme_subpage_cta (Some 0) (Some 8) \<in> set (triggers w1)"
    unfolding t1 by (simp add: subpage_bindings_legacy)
  have b: "trigger (theme_subpage_cta (Some 0) (Some 8)) = ''.final-cta''"
    "trigger_id (theme_subpage_cta (Some 0) (Some 8)) = Some ''theme-subpage-cta''"
    by (simp_all add: theme_subpage_cta_def)
  have c: "''.final-cta'' \<in> set bound_sections_legacy"
    "querySelector (the_page quiet_world) ''.final-cta'' = Some 4"
    by (simp_all add: bound_sections_legacy_def p subpage_def subpage_selectors_def)
  show ?thesis
    using C8_absent_section_robust [of 0 "Some 8" quiet_world "''.section-content''"] w1 a b c
    by auto
qed

text \<open>
  Claim C2. Let the registered triggers outside the theme namespace and the queued frame
  callbacks be tame. After the legacy \<^verbatim>\<open>initThemeTriggers\<close> has returned, the header's
  \<^verbatim>\<open>data-theme\<close> is light or dark, and it stays light or dark through any sequence of
  page changes, callback invocations and display frames, none of which raises.
  \<^verbatim>\<open>initThemeTriggers\<close> of \<^verbatim>\<open>headerTheme.js\<close> writes a theme only in its trigger
  callbacks: after it the attribute is light, dark or what it was before. With a library
  that enters absent sections, on a page that lacks one of the five sections bound
  unconditionally (each of the three page archetypes lacks one), the header is light or
  dark after that installation as well, and stays so.
\<close>

theorem C2_one_theme_after_installation:
  assumes "list_all tame (filter (\<lambda>t. \<not> is_theme t) (triggers w))"
    and "list_all tame_task (frames w)"
  shows "(\<exists>w1 w2. initThemeTriggers_legacy (Some h) m w = Some w1 \<and> run_steps ss w1 = Some w2 \<and>
            light_or_dark (data_theme w1 h) \<and> light_or_dark (data_theme w2 h))
       \<and> (\<exists>w1 w2. initThemeTriggers (Some h) m w = Some w1 \<and> run_steps ss w1 = Some w2 \<and>
            (light_or_dark (data_theme w1 h) \<or> data_theme w1 h = data_theme w h) \<and>
            (light_or_dark (data_theme w2 h) \<or> data_theme w2 h = data_theme w h))
       \<and> ((\<forall>v. enters_absent w v) \<and>
           (\<exists>sel\<in>set fixed_sections. querySelector (the_page w) sel = None) \<longrightarrow>
           (\<exists>w1 w2. initThemeTriggers (Some h) m w = Some w1 \<and> run_steps ss w1 = Some w2 \<and>
              light_or_dark (data_theme w1 h) \<and> light_or_dark (data_theme w2 h)))"
proof (intro conjI impI)
  have i: "installable w" using assms by (simp add: installable_def)
  obtain w1 where w1: "initThemeTriggers_legacy (Some h) m w = Some w1" "settled w1"
    "light_or_dark (data_theme w1 h)"
    using legacy_settles[OF i, of h m] by blast
  obtain w2 where w2: "run_steps ss w1 = Some w2" "themed w1 w2"
    using run_steps_settled[OF w1(2), of ss] by blast
  have "light_or_dark (data_theme w2 h)"
    using w1(3) w2(2) unfolding themed_def by metis
  then show "\<exists>w1 w2. initThemeTriggers_legacy (Some h) m w = Some w1 \<and> run_steps ss w1 = Some w2 \<and>
            light_or_dark (data_theme w1 h) \<and> light_or_dark (data_theme w2 h)"
    using w1 w2 by blast
next
  have i: "installable w" using assms by (simp add: installable_def)
  obtain w1 where w1: "initThemeTriggers (Some h) m w = Some w1" "settled w1" "themed w w1"
    using current_settles[OF i, of h m] by blast
  obtain w2 where w2: "run_steps ss w1 = Some w2" "themed w1 w2"
    using run_steps_settled[OF w1(2), of ss] by blast
  have "themed w w2" using w1(3) w2(2) by (rule themed_trans)
  then have "light_or_dark (data_theme w2 h) \<or> data_theme w2 h = data_theme w h"
    unfolding themed_def by metis
  moreover have "light_or_dark (data_theme w1 h) \<or> data_theme w1 h = data_theme w h"
    using w1(3) unfolding themed_def by metis
  ultimately show "\<exists>w1 w2. initThemeTriggers (Some h) m w = Some w1 \<and> run_steps ss w1 = Some w2 \<and>
            (light_or_dark (data_theme w1 h) \<or> data_theme w1 h = data_theme w h) \<and>
            (light_or_dark (data_theme w2 h) \<or> data_theme w2 h = data_theme w h)"
    using w1 w2 by blast
next
  assume a: "(\<forall>v. enters_absent w v) \<and>
           (\<exists>sel\<in>set fixed_sections. querySelector (the_page w) sel = None)"
  have i: "installable w" using assms by (simp add: installable_def)
  obtain w1 where w1: "initThemeTriggers (Some h) m w = Some w1" "settled w1"
    "light_or_dark (data_theme w1 h)"
    using current_settles_themed[OF i, of h m] a by blast
  obtain w2 where w2: "run_steps ss w1 = Some w2" "themed w1 w2"
    using run_steps_settled[OF w1(2), of ss] by blast
  have "light_or_dark (data_theme w2 h)"
    using w1(3) w2(2) unfolding themed_def by metis
  then show "\<exists>w1 w2. initThemeTriggers (Some h) m w = Some w1 \<and> run_steps ss w1 = Some w2 \<and>
              light_or_dark (data_theme w1 h) \<and> light_or_dark (data_theme w2 h)"
    using w1 w2 by blast
qed

theorem C2_one_theme_after_installation_witness:
  "list_all tame (filter (\<lambda>t. \<not> is_theme t) (triggers gsap_world)) \<and>
   list_all tame_task (frames gsap_world) \<and>
   fires_on_create gsap_world = absent_enter_library \<and>
   ''.cabinet-preview'' \<in> set fixed_sections \<and>
   querySelector (the_page gsap_world) ''.cabinet-preview'' = None \<and>
   data_theme gsap_world 0 = None \<and>
   (\<exists>w1 w2. initThemeTriggers_legacy (Some 0) (Some 8) gsap_world = Some w1 \<and>
      run_steps [Scroll 6 Enter, PageChange subpage_at_400, Scroll 7 Leave, Frame] w1 = Some w2 \<and>
      light_or_dark (data_theme w1 0) \<and> light_or_dark (data_theme w2 0)) \<and>
   (\<exists>w1 w2. initThemeTriggers (Some 0) (Some 8) gsap_world = Some w1 \<and>
      run_steps [Scroll 6 Enter, PageChange subpage_at_400, Scroll 7 Leave, Frame] w1 = Some w2 \<and>
      light_or_dark (data_theme w1 0) \<and> light_or_dark (data_theme w2 0))"
proof -
  have a: "list_all tame (filter (\<lambda>t. \<not> is_theme t) (triggers gsap_world))"
    by (simp add: gsap_world_def subpage_world_def tame_parallax)
  have b: "list_all tame_task (frames gsap_world)"
    by (simp add: gsap_world_def subpage_world_def)
  have c: "fires_on_create gsap_world = absent_enter_library"
    "data_theme gsap_world 0 = None"
    by (simp_all add: gsap_world_def subpage_world_def no_theme_def)
  have d: "\<forall>v. enters_absent gsap_world v"
    by (simp add: enters_absent_def c absent_enter_library_def)
  have e: "''.cabinet-preview'' \<in> set fixed_sections"
    "querySelector (the_page gsap_world) ''.cabinet-preview'' = None"
    by (simp_all add: fixed_sections_def gsap_world_def subpage_world_def subpage_def
          subpage_selectors_def)
  have f: "\<exists>sel\<in>set fixed_sections. querySelector (the_page gsap_world) sel = None"
    using e by blast
  show ?thesis
    using C2_one_theme_after_installation [OF a b, of 0 "Some 8" "[Scroll 6 Enter, PageChange subpage_at_400, Scroll 7 Leave, Frame]"]
      a b c d e f
    by blast
qed








end
